theory Spec2Isabelle
  imports Complex_Main "HOL-Library.Word" "HOL-Library.Char_ord" "HOL-Library.List_Lexorder"
begin

section \<open>The virtual file store of the AdPlug adapter\<close>

text \<open>
  \<^verbatim>\<open>src/wasm/adplug/adapter.cpp\<close> keeps the registered files in
  \<^verbatim>\<open>static std::map<std::string, FileData> g_files\<close>. A \<^verbatim>\<open>std::map\<close> holds one entry
  per key and iterates in increasing key order (\<^verbatim>\<open>std::string\<close> compares bytewise,
  lexicographically); it is modelled as an association list whose operations keep that
  order: \<open>map_find\<close> is \<^verbatim>\<open>find\<close>, \<open>map_erase\<close> is \<^verbatim>\<open>erase\<close>, \<open>map_assign\<close> is
  \<^verbatim>\<open>g_files[k] = v\<close>. The order on \<open>string\<close> is the lexicographic order of
  \<open>List_Lexorder\<close> over the byte order of \<open>Char_ord\<close>.

  \<^verbatim>\<open>FileData\<close> is a pointer and a size. Buffers obtained with \<^verbatim>\<open>new uint8_t[n]\<close> live
  in an explicit memory: \<open>mem\<close> gives the bytes at an address, \<open>live\<close> lists the
  addresses that are allocated and not yet released. \<^verbatim>\<open>delete[]\<close> removes an address
  from \<open>live\<close> (the bytes stay where they are, as in the machine), \<^verbatim>\<open>new\<close> takes an
  address that is not live: \<open>fresh\<close>, the successor of the largest live address. Address
  0 is the null pointer and is never handed out. The provider's table of open streams
  (\<^verbatim>\<open>m_streamBuffers\<close>, used by \<^verbatim>\<open>close\<close> and \<^verbatim>\<open>clearBuffers\<close>) concerns the copies
  handed to the backend and is not part of the model.
\<close>

type_synonym uint8_t = "8 word"
type_synonym addr = nat

record FileData =
  data :: addr
  size_fd :: nat

fun map_find :: "('k \<times> 'v) list \<Rightarrow> 'k \<Rightarrow> 'v option" where
  "map_find [] k = None"
| "map_find ((k', v) # m) k = (if k' = k then Some v else map_find m k)"

fun map_erase :: "('k \<times> 'v) list \<Rightarrow> 'k \<Rightarrow> ('k \<times> 'v) list" where
  "map_erase [] k = []"
| "map_erase ((k', v) # m) k = (if k' = k then m else (k', v) # map_erase m k)"

fun map_assign :: "('k :: linorder \<times> 'v) list \<Rightarrow> 'k \<Rightarrow> 'v \<Rightarrow> ('k \<times> 'v) list" where
  "map_assign [] k v = [(k, v)]"
| "map_assign ((k', v') # m) k v =
     (if k < k' then (k, v) # (k', v') # m
      else if k = k' then (k, v) # m
      else (k', v') # map_assign m k v)"

type_synonym file_map = "(string \<times> FileData) list"

definition fresh :: "addr list \<Rightarrow> addr" where
  "fresh as = Suc (fold max as 0)"

definition delete_buf :: "addr \<Rightarrow> addr list \<Rightarrow> addr list" where
  "delete_buf a as = filter (\<lambda>b. b \<noteq> a) as"

subsection \<open>toLower and getFilename\<close>

definition toLower_char :: "char \<Rightarrow> char" where
  "toLower_char c =
     (if CHR ''A'' \<le> c \<and> c \<le> CHR ''Z''
      then char_of ((of_char c :: nat) - of_char CHR ''A'' + of_char CHR ''a'')
      else c)"

definition toLower :: "string \<Rightarrow> string" where
  "toLower s = map toLower_char s"

text \<open>\<^verbatim>\<open>path.find_last_of(cs)\<close>: the last position of \<open>path\<close> that holds a character of
  \<open>cs\<close>, \<open>None\<close> for \<^verbatim>\<open>npos\<close>.\<close>

fun find_last_of :: "string \<Rightarrow> string \<Rightarrow> nat option" where
  "find_last_of [] cs = None"
| "find_last_of (c # path) cs =
     (case find_last_of path cs of
        Some pos \<Rightarrow> Some (Suc pos)
      | None \<Rightarrow> (if c \<in> set cs then Some 0 else None))"

definition getFilename :: "string \<Rightarrow> string" where
  "getFilename path =
     (case find_last_of path [CHR ''/'', CHR 0x5C] of
        Some pos \<Rightarrow> drop (pos + 1) path
      | None \<Rightarrow> path)"

subsection \<open>CProvider\_Memory::open\<close>

text \<open>The \<^verbatim>\<open>for\<close> loop of the third tier: the first pair, in the map's order, whose
  stripped and lower-cased key equals \<open>lowerName\<close>; the iterator is then
  \<^verbatim>\<open>g_files.find(pair.first)\<close>.\<close>

fun scan_lower :: "file_map \<Rightarrow> file_map \<Rightarrow> string \<Rightarrow> FileData option" where
  "scan_lower files [] lowerName = None"
| "scan_lower files (pair # rest) lowerName =
     (if toLower (getFilename (fst pair)) = lowerName then map_find files (fst pair)
      else scan_lower files rest lowerName)"

text \<open>The stream handed to the backend is a \<^verbatim>\<open>binisstream\<close> over a fresh copy of
  \<open>size\<close> bytes; it is modelled by the bytes it reads. \<open>None\<close> is \<^verbatim>\<open>nullptr\<close>.\<close>

definition stream_of :: "(addr \<Rightarrow> uint8_t list) \<Rightarrow> FileData \<Rightarrow> uint8_t list" where
  "stream_of m fd = take (size_fd fd) (m (data fd))"

definition CProvider_Memory_open ::
    "file_map \<Rightarrow> (addr \<Rightarrow> uint8_t list) \<Rightarrow> string \<Rightarrow> uint8_t list option" where
  "CProvider_Memory_open files m filename =
     (let it = map_find files filename;
          it = (if it = None then map_find files (getFilename filename) else it);
          it = (if it = None then scan_lower files files (toLower (getFilename filename)) else it)
      in case it of None \<Rightarrow> None | Some fd \<Rightarrow> Some (stream_of m fd))"

text \<open>The lookup as the specification words it: three tiers, the first that matches
  wins.\<close>

definition tier_exact :: "file_map \<Rightarrow> string \<Rightarrow> FileData option" where
  "tier_exact files name = map_of files name"

definition tier_stripped :: "file_map \<Rightarrow> string \<Rightarrow> FileData option" where
  "tier_stripped files name = map_of files (getFilename name)"

definition tier_caseless :: "file_map \<Rightarrow> string \<Rightarrow> FileData option" where
  "tier_caseless files name =
     map_option snd
       (find (\<lambda>(k, v). toLower (getFilename k) = toLower (getFilename name)) files)"

definition resolve_spec :: "file_map \<Rightarrow> string \<Rightarrow> FileData option" where
  "resolve_spec files name =
     (case tier_exact files name of
        Some fd \<Rightarrow> Some fd
      | None \<Rightarrow>
          (case tier_stripped files name of
             Some fd \<Rightarrow> Some fd
           | None \<Rightarrow> tier_caseless files name))"

section \<open>The tick backend: session state\<close>

text \<open>
  The wrapped AdPlug library is outside the repository. A loaded \<^verbatim>\<open>CPlayer\<close> is a value
  of a type \<open>'p\<close>, and the virtual methods the adapter calls are the fields of a record of
  functions over it; \<open>factory\<close> is \<^verbatim>\<open>CAdPlug::factory\<close>, which reads auxiliary files
  through the provider's \<^verbatim>\<open>open\<close> and yields a player or \<^verbatim>\<open>nullptr\<close>. The theorems
  hold for every such record.

  \<^verbatim>\<open>float\<close> and \<^verbatim>\<open>double\<close> quantities are real numbers with exact arithmetic: rounding,
  infinities and NaN of the machine formats are outside the model. \<^verbatim>\<open>unsigned long\<close>
  counters are natural numbers (their wrap-around at the word size of the target is
  outside the model), \<^verbatim>\<open>int\<close> is \<open>int\<close>.
\<close>

record 'p adplug =
  factory :: "string \<Rightarrow> (string \<Rightarrow> uint8_t list option) \<Rightarrow> 'p option"
  update :: "'p \<Rightarrow> bool \<times> 'p"
  getrefresh :: "'p \<Rightarrow> real"
  rewind :: "'p \<Rightarrow> int \<Rightarrow> 'p"
  seek :: "'p \<Rightarrow> nat \<Rightarrow> 'p"
  songlength :: "'p \<Rightarrow> int \<Rightarrow> nat"
  getsubsongs :: "'p \<Rightarrow> nat"
  gettitle :: "'p \<Rightarrow> string"
  getauthor :: "'p \<Rightarrow> string"
  gettype :: "'p \<Rightarrow> string"
  getdesc :: "'p \<Rightarrow> string"

text \<open>The globals of the adapter. \<open>g_opl\<close> and \<open>g_audioBuffer\<close> record whether the
  pointer is non-null (the synthesis engine and the samples it writes are outside the
  model); the four text fields are the character arrays, terminator included.\<close>

record 'p emu_state =
  g_opl :: bool
  g_player :: "'p option"
  g_sampleRate :: int
  g_audioBuffer :: bool
  g_audioBufferLength :: int
  g_currentPosition :: nat
  g_maxPosition :: nat
  g_sampleAccumulator :: real
  g_totalSamplesGenerated :: nat
  g_currentTick :: nat
  g_title :: "char list"
  g_author :: "char list"
  g_type :: "char list"
  g_desc :: "char list"
  g_files :: file_map
  g_loopEnabled :: bool
  mem :: "addr \<Rightarrow> uint8_t list"
  live :: "addr list"

definition AUDIO_BUFFER_SIZE :: int where
  "AUDIO_BUFFER_SIZE = 512"

definition NUL :: char where
  "NUL = CHR 0x00"

text \<open>The state the static initialisers give.\<close>

definition initial_state :: "'p emu_state" where
  "initial_state =
     \<lparr> g_opl = False, g_player = None, g_sampleRate = 49716, g_audioBuffer = False,
       g_audioBufferLength = 0, g_currentPosition = 0, g_maxPosition = 0,
       g_sampleAccumulator = 0, g_totalSamplesGenerated = 0, g_currentTick = 0,
       g_title = replicate 256 NUL, g_author = replicate 256 NUL,
       g_type = replicate 256 NUL, g_desc = replicate 1024 NUL,
       g_files = [], g_loopEnabled = False, mem = (\<lambda>a. []), live = [] \<rparr>"

subsection \<open>C strings in character arrays\<close>

text \<open>\<open>c_str\<close> reads an array, or the text a library hands over, as a C string: up
  to the first NUL. \<^verbatim>\<open>strncpy(dst, src, n)\<close> writes exactly \<open>n\<close> characters at the start of
  \<open>dst\<close>: the characters of the C string \<open>src\<close>, cut at \<open>n\<close> or padded with NUL.\<close>

definition c_str :: "char list \<Rightarrow> string" where
  "c_str arr = takeWhile (\<lambda>c. c \<noteq> NUL) arr"

definition strncpy :: "char list \<Rightarrow> string \<Rightarrow> nat \<Rightarrow> char list" where
  "strncpy dst src n = take n (c_str src @ replicate n NUL) @ drop n dst"

subsection \<open>getSamplesPerTick\<close>

definition getSamplesPerTick :: "'p adplug \<Rightarrow> 'p emu_state \<Rightarrow> real" where
  "getSamplesPerTick lib s =
     (case g_player s of
        None \<Rightarrow> 0
      | Some p \<Rightarrow>
          (let refreshRate = getrefresh lib p;
               refreshRate = (if refreshRate \<le> 0 then 70 else refreshRate)
           in real_of_int (g_sampleRate s) / refreshRate))"

subsection \<open>emu\_init and emu\_teardown\<close>

text \<open>\<^verbatim>\<open>new\<close> does not yield a null pointer, so \<^verbatim>\<open>emu_init\<close> always reaches its
  \<^verbatim>\<open>return 0\<close>; the players, the engine and the sample buffer are not part of the
  explicit memory, which holds the buffers of the file store only.\<close>

text \<open>The loop \<^verbatim>\<open>for (auto& pair : g_files) delete[] pair.second.data\<close>.\<close>

fun delete_all :: "file_map \<Rightarrow> addr list \<Rightarrow> addr list" where
  "delete_all [] as = as"
| "delete_all (pair # rest) as = delete_all rest (delete_buf (data (snd pair)) as)"

definition emu_init :: "int \<Rightarrow> 'p emu_state \<Rightarrow> int \<times> 'p emu_state" where
  "emu_init sampleRate s =
     (let s = s\<lparr>g_player := None\<rparr>;
          s = s\<lparr>g_opl := False\<rparr>;
          s = s\<lparr>g_audioBuffer := False\<rparr>;
          s = s\<lparr>live := delete_all (g_files s) (live s)\<rparr>;
          s = s\<lparr>g_files := []\<rparr>;
          s = s\<lparr>g_sampleRate := (if sampleRate > 0 then sampleRate else 49716)\<rparr>;
          s = s\<lparr>g_opl := True\<rparr>;
          s = s\<lparr>g_audioBuffer := True, g_audioBufferLength := 0\<rparr>;
          s = s\<lparr>g_currentPosition := 0, g_maxPosition := 0, g_sampleAccumulator := 0,
                g_totalSamplesGenerated := 0, g_currentTick := 0\<rparr>
      in (0, s))"

definition emu_teardown :: "'p emu_state \<Rightarrow> 'p emu_state" where
  "emu_teardown s =
     (let s = s\<lparr>g_player := None\<rparr>;
          s = s\<lparr>g_opl := False\<rparr>;
          s = s\<lparr>g_audioBuffer := False\<rparr>;
          s = s\<lparr>live := delete_all (g_files s) (live s)\<rparr>;
          s = s\<lparr>g_files := []\<rparr>
      in s\<lparr>g_audioBufferLength := 0, g_currentPosition := 0, g_maxPosition := 0\<rparr>)"

subsection \<open>emu\_add\_file and emu\_load\_file\<close>

text \<open>A pointer argument is \<open>None\<close> when it is null. \<open>data\<close> points to at least
  \<open>size\<close> bytes; \<^verbatim>\<open>memcpy\<close> takes the first \<open>size\<close> of them.\<close>

definition emu_add_file ::
    "string option \<Rightarrow> uint8_t list option \<Rightarrow> int \<Rightarrow> 'p emu_state \<Rightarrow> int \<times> 'p emu_state" where
  "emu_add_file filename bytes sz s =
     (case (filename, bytes) of
        (Some name, Some buf) \<Rightarrow>
          if sz \<le> 0 then (- 1, s)
          else
            (let s = (case map_find (g_files s) name of
                        Some fd \<Rightarrow> s\<lparr>live := delete_buf (data fd) (live s),
                                     g_files := map_erase (g_files s) name\<rparr>
                      | None \<Rightarrow> s);
                 dataCopy = fresh (live s);
                 s = s\<lparr>live := dataCopy # live s,
                       mem := (mem s)(dataCopy := take (nat sz) buf)\<rparr>;
                 s = s\<lparr>g_files :=
                         map_assign (g_files s) name \<lparr>data = dataCopy, size_fd = nat sz\<rparr>\<rparr>
             in (0, s))
      | _ \<Rightarrow> (- 1, s))"

definition emu_load_file ::
    "'p adplug \<Rightarrow> string option \<Rightarrow> uint8_t list option \<Rightarrow> int \<Rightarrow> 'p emu_state
      \<Rightarrow> int \<times> 'p emu_state" where
  "emu_load_file lib filename bytes sz s =
     (case (filename, bytes) of
        (Some name, Some buf) \<Rightarrow>
          if \<not> g_opl s \<or> sz \<le> 0 then (- 1, s)
          else
            (let s = s\<lparr>g_player := None\<rparr>;
                 s = s\<lparr>g_sampleAccumulator := 0, g_totalSamplesGenerated := 0,
                       g_currentTick := 0\<rparr>;
                 s = snd (emu_add_file filename bytes sz s);
                 s = s\<lparr>g_player :=
                         factory lib name (CProvider_Memory_open (g_files s) (mem s))\<rparr>
             in case g_player s of
                  None \<Rightarrow> (- 1, s)
                | Some p \<Rightarrow>
                    (let s = s\<lparr>g_title := strncpy (g_title s) (gettitle lib p) 255,
                               g_author := strncpy (g_author s) (getauthor lib p) 255,
                               g_type := strncpy (g_type s) (gettype lib p) 255,
                               g_desc := strncpy (g_desc s) (getdesc lib p) 1023\<rparr>;
                         s = s\<lparr>g_maxPosition := songlength lib p (- 1)\<rparr>;
                         s = s\<lparr>g_currentPosition := 0\<rparr>
                     in (0, s)))
      | _ \<Rightarrow> (- 1, s))"

subsection \<open>emu\_compute\_audio\_samples\<close>

text \<open>\<^verbatim>\<open>static_cast<int>\<close> of a \<^verbatim>\<open>float\<close> and \<^verbatim>\<open>static_cast<unsigned long>\<close> of a
  \<^verbatim>\<open>double\<close> drop the fractional part (towards zero). Values outside the range of the
  target type are undefined behaviour in the source; here \<open>int\<close> is unbounded and a
  negative number becomes the unsigned 0.\<close>

definition float_to_int :: "real \<Rightarrow> int" where
  "float_to_int x = (if 0 \<le> x then \<lfloor>x\<rfloor> else \<lceil>x\<rceil>)"

definition double_to_ulong :: "real \<Rightarrow> nat" where
  "double_to_ulong x = nat (float_to_int x)"

text \<open>How a piece of the function ends: it returns a status to the caller, it falls
  through with the local \<open>samplesGenerated\<close>, or it dereferences a null \<open>g_player\<close>.\<close>

datatype 'p flow =
    Return int "'p emu_state"
  | Next int "'p emu_state"
  | NullDeref

text \<open>One pass through the body of \<^verbatim>\<open>while (samplesGenerated < maxSamples)\<close>.\<close>

definition loop_body :: "'p adplug \<Rightarrow> int \<Rightarrow> 'p emu_state \<Rightarrow> 'p flow" where
  "loop_body lib samplesGenerated s =
     (let maxSamples = AUDIO_BUFFER_SIZE;
          samplesToGenerate = float_to_int (g_sampleAccumulator s);
          (samplesGenerated, s) =
            (if samplesToGenerate > 0 then
               (let remaining = maxSamples - samplesGenerated;
                    toGenerate = (if samplesToGenerate < remaining then samplesToGenerate
                                  else remaining)
                in (samplesGenerated + toGenerate,
                    s\<lparr>g_sampleAccumulator := g_sampleAccumulator s - real_of_int toGenerate\<rparr>))
             else (samplesGenerated, s))
      in if samplesGenerated < maxSamples then
           (case g_player s of
              None \<Rightarrow> NullDeref
            | Some p \<Rightarrow>
                (let (stillPlaying, p') = update lib p;
                     s = s\<lparr>g_player := Some p'\<rparr>;
                     s = s\<lparr>g_currentTick := g_currentTick s + 1\<rparr>
                 in if \<not> stillPlaying then
                      Return 1 (s\<lparr>g_audioBufferLength := samplesGenerated * 2 * 2\<rparr>)
                    else
                      (let samplesPerTick = getSamplesPerTick lib s
                       in Next samplesGenerated
                            (s\<lparr>g_sampleAccumulator := g_sampleAccumulator s + samplesPerTick\<rparr>))))
         else Next samplesGenerated s)"

text \<open>The loop itself. It need not end (a player may keep playing while the quota it
  adds per tick dwindles), so not returning is the value \<open>None\<close>.\<close>

partial_function (option) while_loop :: "'p adplug \<Rightarrow> int \<Rightarrow> 'p emu_state \<Rightarrow> 'p flow option" where
  "while_loop lib samplesGenerated s =
     (if samplesGenerated < AUDIO_BUFFER_SIZE then
        (case loop_body lib samplesGenerated s of
           Next samplesGenerated' s' \<Rightarrow> while_loop lib samplesGenerated' s'
         | Return status s' \<Rightarrow> Some (Return status s')
         | NullDeref \<Rightarrow> Some NullDeref)
      else Some (Next samplesGenerated s))"

definition emu_compute_audio_samples :: "'p adplug \<Rightarrow> 'p emu_state \<Rightarrow> 'p flow option" where
  "emu_compute_audio_samples lib s =
     (if g_player s = None \<or> \<not> g_opl s \<or> \<not> g_audioBuffer s then Some (Return 1 s)
      else
        (case while_loop lib 0 s of
           None \<Rightarrow> None
         | Some (Next samplesGenerated s) \<Rightarrow>
             (let s = s\<lparr>g_totalSamplesGenerated :=
                          g_totalSamplesGenerated s + nat samplesGenerated\<rparr>;
                  s = s\<lparr>g_currentPosition :=
                          double_to_ulong
                            (real (g_totalSamplesGenerated s) / real_of_int (g_sampleRate s)
                              * 1000)\<rparr>;
                  s = s\<lparr>g_audioBufferLength := samplesGenerated * 2 * 2\<rparr>
              in Some (Return 0 s))
         | Some r \<Rightarrow> Some r))"

subsection \<open>Queries and transport\<close>

definition emu_get_audio_buffer_length :: "'p emu_state \<Rightarrow> int" where
  "emu_get_audio_buffer_length s = g_audioBufferLength s"


definition emu_get_max_position :: "'p emu_state \<Rightarrow> nat" where
  "emu_get_max_position s = g_maxPosition s"

definition emu_seek_position :: "'p adplug \<Rightarrow> nat \<Rightarrow> 'p emu_state \<Rightarrow> 'p emu_state" where
  "emu_seek_position lib ms s =
     (case g_player s of
        Some p \<Rightarrow> (let s = s\<lparr>g_player := Some (seek lib p ms)\<rparr> in s\<lparr>g_currentPosition := ms\<rparr>)
      | None \<Rightarrow> s)"

definition emu_get_subsong_count :: "'p adplug \<Rightarrow> 'p emu_state \<Rightarrow> int" where
  "emu_get_subsong_count lib s =
     (case g_player s of Some p \<Rightarrow> int (getsubsongs lib p) | None \<Rightarrow> 0)"

definition emu_set_subsong :: "'p adplug \<Rightarrow> int \<Rightarrow> 'p emu_state \<Rightarrow> 'p emu_state" where
  "emu_set_subsong lib subsong s =
     (case g_player s of
        Some p \<Rightarrow>
          (let p' = rewind lib p subsong;
               s = s\<lparr>g_player := Some p'\<rparr>;
               s = s\<lparr>g_maxPosition := songlength lib p' subsong\<rparr>
           in s\<lparr>g_currentPosition := 0\<rparr>)
      | None \<Rightarrow> s)"

definition emu_get_sample_rate :: "'p emu_state \<Rightarrow> int" where
  "emu_get_sample_rate s = g_sampleRate s"

definition emu_rewind :: "'p adplug \<Rightarrow> 'p emu_state \<Rightarrow> 'p emu_state" where
  "emu_rewind lib s =
     (case g_player s of
        Some p \<Rightarrow>
          (let s = s\<lparr>g_player := Some (rewind lib p (- 1))\<rparr>;
               s = s\<lparr>g_currentPosition := 0\<rparr>;
               s = s\<lparr>g_currentTick := 0\<rparr>;
               s = s\<lparr>g_sampleAccumulator := 0\<rparr>
           in s\<lparr>g_totalSamplesGenerated := 0\<rparr>)
      | None \<Rightarrow> s)"

definition emu_get_current_tick :: "'p emu_state \<Rightarrow> nat" where
  "emu_get_current_tick s = g_currentTick s"


definition emu_set_loop_enabled :: "int \<Rightarrow> 'p emu_state \<Rightarrow> 'p emu_state" where
  "emu_set_loop_enabled enabled s = s\<lparr>g_loopEnabled := (enabled \<noteq> 0)\<rparr>"

definition emu_get_loop_enabled :: "'p emu_state \<Rightarrow> int" where
  "emu_get_loop_enabled s = (if g_loopEnabled s then 1 else 0)"

text \<open>\<^verbatim>\<open>snprintf(info, 2048, "%s|%s|%s|%s", ...)\<close>: the joined text, cut to 2047
  characters.\<close>

definition emu_get_track_info :: "'p emu_state \<Rightarrow> string" where
  "emu_get_track_info s =
     take 2047 (c_str (g_title s) @ ''|'' @ c_str (g_author s) @ ''|'' @ c_str (g_type s)
                @ ''|'' @ c_str (g_desc s))"

subsection \<open>Reachable states\<close>

text \<open>The states a host can bring the tick backend into, from the static initial state,
  by any sequence of calls of the public functions that change state.\<close>

inductive_set reachable :: "'p adplug \<Rightarrow> 'p emu_state set" for lib :: "'p adplug" where
  start: "initial_state \<in> reachable lib"
| init: "s \<in> reachable lib \<Longrightarrow> snd (emu_init sampleRate s) \<in> reachable lib"
| teardown: "s \<in> reachable lib \<Longrightarrow> emu_teardown s \<in> reachable lib"
| add_file: "s \<in> reachable lib \<Longrightarrow> snd (emu_add_file filename bytes sz s) \<in> reachable lib"
| load_file: "s \<in> reachable lib \<Longrightarrow> snd (emu_load_file lib filename bytes sz s) \<in> reachable lib"
| compute: "s \<in> reachable lib \<Longrightarrow> emu_compute_audio_samples lib s = Some (Return status s')
     \<Longrightarrow> s' \<in> reachable lib"
| seek_position: "s \<in> reachable lib \<Longrightarrow> emu_seek_position lib ms s \<in> reachable lib"
| set_subsong: "s \<in> reachable lib \<Longrightarrow> emu_set_subsong lib subsong s \<in> reachable lib"
| rewind: "s \<in> reachable lib \<Longrightarrow> emu_rewind lib s \<in> reachable lib"
| set_loop_enabled: "s \<in> reachable lib \<Longrightarrow> emu_set_loop_enabled enabled s \<in> reachable lib"


section \<open>The frame-pull backend\<close>

text \<open>
  \<^verbatim>\<open>src/wasm/libopenmpt/adapter.cpp\<close>. The libopenmpt C API is outside the repository: a
  module is a value of a type \<open>'m\<close>, and the API functions the adapter calls are the
  fields of a record. \<^verbatim>\<open>openmpt_module_get_metadata\<close> yields \<open>None\<close> for a null result.
  The globals that share a name with a global of the other adapter carry the suffix
  \<open>_mpt\<close>.
\<close>

record 'm openmpt =
  module_create_from_memory2 :: "uint8_t list \<Rightarrow> 'm option"
  module_set_repeat_count :: "'m \<Rightarrow> int \<Rightarrow> 'm"
  module_get_metadata :: "'m \<Rightarrow> string \<Rightarrow> string option"
  module_read_interleaved_float_stereo :: "'m \<Rightarrow> int \<Rightarrow> nat \<Rightarrow> nat \<times> 'm"
  module_get_position_seconds :: "'m \<Rightarrow> real"
  module_get_duration_seconds :: "'m \<Rightarrow> real"
  module_set_position_seconds :: "'m \<Rightarrow> real \<Rightarrow> 'm"

record 'm mpt_state =
  g_module :: "'m option"
  g_sampleRate_mpt :: int
  g_audioBuffer_mpt :: bool
  g_audioBufferFrames :: int
  g_repeatCount :: int
  g_title_mpt :: "char list"
  g_artist :: "char list"
  g_type_mpt :: "char list"
  g_trackInfo :: "char list"

definition AUDIO_BUFFER_FRAMES :: nat where
  "AUDIO_BUFFER_FRAMES = 1024"

definition initial_state_mpt :: "'m mpt_state" where
  "initial_state_mpt =
     \<lparr> g_module = None, g_sampleRate_mpt = 48000, g_audioBuffer_mpt = False,
       g_audioBufferFrames = 0, g_repeatCount = 0,
       g_title_mpt = replicate 256 NUL, g_artist = replicate 256 NUL,
       g_type_mpt = replicate 256 NUL, g_trackInfo = replicate 1024 NUL \<rparr>"

text \<open>\<open>malloc_ok\<close> tells whether the \<^verbatim>\<open>malloc\<close> of the audio buffer succeeds.\<close>

definition mpt_init :: "bool \<Rightarrow> int \<Rightarrow> 'm mpt_state \<Rightarrow> int \<times> 'm mpt_state" where
  "mpt_init malloc_ok sampleRate s =
     (let s = s\<lparr>g_module := None\<rparr>;
          s = s\<lparr>g_audioBuffer_mpt := False\<rparr>;
          s = s\<lparr>g_sampleRate_mpt := (if sampleRate > 0 then sampleRate else 48000)\<rparr>;
          s = s\<lparr>g_audioBuffer_mpt := malloc_ok\<rparr>
      in if \<not> g_audioBuffer_mpt s then (- 1, s)
         else
           (let s = s\<lparr>g_audioBufferFrames := 0\<rparr>;
                s = s\<lparr>g_title_mpt := (g_title_mpt s)[0 := NUL]\<rparr>;
                s = s\<lparr>g_artist := (g_artist s)[0 := NUL]\<rparr>;
                s = s\<lparr>g_type_mpt := (g_type_mpt s)[0 := NUL]\<rparr>;
                s = s\<lparr>g_trackInfo := (g_trackInfo s)[0 := NUL]\<rparr>
            in (0, s)))"

definition mpt_teardown :: "'m mpt_state \<Rightarrow> 'm mpt_state" where
  "mpt_teardown s =
     (let s = s\<lparr>g_module := None\<rparr>;
          s = s\<lparr>g_audioBuffer_mpt := False\<rparr>
      in s\<lparr>g_audioBufferFrames := 0\<rparr>)"

text \<open>The pattern
  \<^verbatim>\<open>if (title) { strncpy(g_title, title, 255); g_title[255] = '\0'; } else { g_title[0] = '\0'; }\<close>.\<close>

definition store_text :: "char list \<Rightarrow> string option \<Rightarrow> char list" where
  "store_text arr str =
     (case str of
        Some x \<Rightarrow> (strncpy arr x 255)[255 := NUL]
      | None \<Rightarrow> arr[0 := NUL])"

definition mpt_load_file ::
    "'m openmpt \<Rightarrow> string option \<Rightarrow> uint8_t list option \<Rightarrow> int \<Rightarrow> 'm mpt_state
      \<Rightarrow> int \<times> 'm mpt_state" where
  "mpt_load_file lib filename bytes sz s =
     (case bytes of
        None \<Rightarrow> (- 1, s)
      | Some buf \<Rightarrow>
          if sz \<le> 0 then (- 1, s)
          else
            (let s = s\<lparr>g_module := None\<rparr>;
                 s = s\<lparr>g_module := module_create_from_memory2 lib (take (nat sz) buf)\<rparr>
             in case g_module s of
                  None \<Rightarrow> (- 1, s)
                | Some m \<Rightarrow>
                    (let m = module_set_repeat_count lib m (g_repeatCount s);
                         s = s\<lparr>g_module := Some m\<rparr>;
                         title = module_get_metadata lib m ''title'';
                         artist = module_get_metadata lib m ''artist'';
                         type = module_get_metadata lib m ''type_long'';
                         s = s\<lparr>g_title_mpt := store_text (g_title_mpt s) title\<rparr>;
                         s = s\<lparr>g_artist := store_text (g_artist s) artist\<rparr>;
                         s = s\<lparr>g_type_mpt := store_text (g_type_mpt s) type\<rparr>
                     in (0, s))))"

definition mpt_compute_audio_samples :: "'m openmpt \<Rightarrow> 'm mpt_state \<Rightarrow> int \<times> 'm mpt_state" where
  "mpt_compute_audio_samples lib s =
     (case g_module s of
        None \<Rightarrow> (1, s\<lparr>g_audioBufferFrames := 0\<rparr>)
      | Some m \<Rightarrow>
          if \<not> g_audioBuffer_mpt s then (1, s\<lparr>g_audioBufferFrames := 0\<rparr>)
          else
            (let (framesRead, m') =
                   module_read_interleaved_float_stereo lib m (g_sampleRate_mpt s)
                     AUDIO_BUFFER_FRAMES;
                 s = s\<lparr>g_module := Some m'\<rparr>;
                 s = s\<lparr>g_audioBufferFrames := int framesRead\<rparr>
             in if framesRead = 0 then (1, s) else (0, s)))"

definition mpt_get_audio_buffer_frames :: "'m mpt_state \<Rightarrow> int" where
  "mpt_get_audio_buffer_frames s = g_audioBufferFrames s"


definition mpt_get_duration_seconds :: "'m openmpt \<Rightarrow> 'm mpt_state \<Rightarrow> real" where
  "mpt_get_duration_seconds lib s =
     (case g_module s of None \<Rightarrow> 0 | Some m \<Rightarrow> module_get_duration_seconds lib m)"

definition mpt_set_position_seconds :: "'m openmpt \<Rightarrow> real \<Rightarrow> 'm mpt_state \<Rightarrow> 'm mpt_state" where
  "mpt_set_position_seconds lib seconds s =
     (case g_module s of
        Some m \<Rightarrow> s\<lparr>g_module := Some (module_set_position_seconds lib m seconds)\<rparr>
      | None \<Rightarrow> s)"

text \<open>\<^verbatim>\<open>snprintf(arr, n, ...)\<close> writes the text, cut to \<open>n - 1\<close> characters, and a NUL
  after it.\<close>

definition snprintf :: "char list \<Rightarrow> nat \<Rightarrow> string \<Rightarrow> char list" where
  "snprintf arr n str =
     (let cut = take (n - 1) str in cut @ [NUL] @ drop (length cut + 1) arr)"

definition mpt_get_track_info :: "'m mpt_state \<Rightarrow> string \<times> 'm mpt_state" where
  "mpt_get_track_info s =
     (let s = s\<lparr>g_trackInfo :=
                  snprintf (g_trackInfo s) 1024
                    (c_str (g_title_mpt s) @ ''|'' @ c_str (g_artist s) @ ''|''
                     @ c_str (g_type_mpt s))\<rparr>
      in (c_str (g_trackInfo s), s))"

definition mpt_set_repeat_count :: "'m openmpt \<Rightarrow> int \<Rightarrow> 'm mpt_state \<Rightarrow> 'm mpt_state" where
  "mpt_set_repeat_count lib count s =
     (let s = s\<lparr>g_repeatCount := count\<rparr>
      in case g_module s of
           Some m \<Rightarrow> s\<lparr>g_module := Some (module_set_repeat_count lib m count)\<rparr>
         | None \<Rightarrow> s)"

definition mpt_rewind :: "'m openmpt \<Rightarrow> 'm mpt_state \<Rightarrow> 'm mpt_state" where
  "mpt_rewind lib s =
     (case g_module s of
        Some m \<Rightarrow> s\<lparr>g_module := Some (module_set_position_seconds lib m 0)\<rparr>
      | None \<Rightarrow> s)"

definition mpt_get_sample_rate :: "'m mpt_state \<Rightarrow> int" where
  "mpt_get_sample_rate s = g_sampleRate_mpt s"

section \<open>Invariants and derived notions\<close>

subsection \<open>The tick backend\<close>

text \<open>What the loop of \<^verbatim>\<open>emu_compute_audio_samples\<close> leaves alone: everything but
  the player, the tick counter, the accumulator and the valid length of the buffer.\<close>

definition loop_frame :: "'p emu_state \<Rightarrow> 'p emu_state \<Rightarrow> bool" where
  "loop_frame s s' \<longleftrightarrow>
     g_opl s' = g_opl s \<and> g_sampleRate s' = g_sampleRate s \<and>
     g_audioBuffer s' = g_audioBuffer s \<and> g_currentPosition s' = g_currentPosition s \<and>
     g_maxPosition s' = g_maxPosition s \<and>
     g_totalSamplesGenerated s' = g_totalSamplesGenerated s \<and>
     g_title s' = g_title s \<and> g_author s' = g_author s \<and> g_type s' = g_type s \<and>
     g_desc s' = g_desc s \<and> g_files s' = g_files s \<and> g_loopEnabled s' = g_loopEnabled s \<and>
     mem s' = mem s \<and> live s' = live s \<and> emu_state.more s' = emu_state.more s"

text \<open>The number of samples one pass of the loop body renders: \<open>toGenerate\<close>, or 0 when
  the accumulator holds less than one sample.\<close>

definition rendered :: "int \<Rightarrow> 'p emu_state \<Rightarrow> int" where
  "rendered n s =
     (let a = float_to_int (g_sampleAccumulator s)
      in if a > 0 then (if a < AUDIO_BUFFER_SIZE - n then a else AUDIO_BUFFER_SIZE - n) else 0)"

text \<open>What holds when the loop, started in \<open>s\<close>, is over.\<close>

definition loop_post :: "'p emu_state \<Rightarrow> 'p flow \<Rightarrow> bool" where
  "loop_post s y \<longleftrightarrow>
     (case y of
        Next n' s' \<Rightarrow> n' = AUDIO_BUFFER_SIZE \<and> loop_frame s s' \<and> g_player s' \<noteq> None
          \<and> (0 \<le> g_sampleAccumulator s \<longrightarrow> 0 \<le> g_sampleAccumulator s')
      | Return status s' \<Rightarrow> status = 1 \<and> loop_frame s s' \<and> g_player s' \<noteq> None
          \<and> (0 \<le> g_sampleAccumulator s \<longrightarrow> 0 \<le> g_sampleAccumulator s')
      | NullDeref \<Rightarrow> False)"

text \<open>The file store is a \<^verbatim>\<open>std::map\<close> (keys strictly increasing, hence one entry per
  name), and the live buffers are exactly the buffers its entries point to, each owned by
  one entry.\<close>

definition store_ok :: "'p emu_state \<Rightarrow> bool" where
  "store_ok s \<longleftrightarrow>
     sorted_wrt (<) (map fst (g_files s)) \<and>
     distinct (map (\<lambda>pair. data (snd pair)) (g_files s)) \<and>
     distinct (live s) \<and>
     set (live s) = (\<lambda>pair. data (snd pair)) ` set (g_files s)"

text \<open>The text arrays keep their declared length and their last element is NUL (it is
  zero-initialised and no \<^verbatim>\<open>strncpy\<close> reaches it).\<close>

definition text_ok :: "nat \<Rightarrow> char list \<Rightarrow> bool" where
  "text_ok capacity arr \<longleftrightarrow> length arr = capacity \<and> arr ! (capacity - 1) = NUL"

definition texts_ok :: "'p emu_state \<Rightarrow> bool" where
  "texts_ok s \<longleftrightarrow>
     text_ok 256 (g_title s) \<and> text_ok 256 (g_author s) \<and> text_ok 256 (g_type s) \<and>
     text_ok 1024 (g_desc s)"

text \<open>The buffer an entry of the store points to.\<close>

abbreviation ptr :: "string \<times> FileData \<Rightarrow> addr" where
  "ptr pair \<equiv> data (snd pair)"

text \<open>The live addresses once \<^verbatim>\<open>emu_add_file\<close> has released the buffer registered under
  \<open>name\<close>, if there is one.\<close>

definition released :: "file_map \<Rightarrow> string \<Rightarrow> addr list \<Rightarrow> addr list" where
  "released files name as =
     (case map_find files name of Some fd \<Rightarrow> delete_buf (data fd) as | None \<Rightarrow> as)"

text \<open>The state in which \<^verbatim>\<open>emu_load_file\<close> calls the factory.\<close>

definition before_factory ::
    "string \<Rightarrow> uint8_t list \<Rightarrow> int \<Rightarrow> 'p emu_state \<Rightarrow> 'p emu_state" where
  "before_factory name buf sz s =
     snd (emu_add_file (Some name) (Some buf) sz
            (s\<lparr>g_player := None, g_sampleAccumulator := 0, g_totalSamplesGenerated := 0,
               g_currentTick := 0\<rparr>))"

definition made_player ::
    "'p adplug \<Rightarrow> string \<Rightarrow> uint8_t list \<Rightarrow> int \<Rightarrow> 'p emu_state \<Rightarrow> 'p option" where
  "made_player lib name buf sz s =
     factory lib name
       (CProvider_Memory_open (g_files (before_factory name buf sz s))
          (mem (before_factory name buf sz s)))"

text \<open>The invariant of the tick backend's globals.\<close>

definition session_ok :: "'p emu_state \<Rightarrow> bool" where
  "session_ok s \<longleftrightarrow>
     0 \<le> g_sampleAccumulator s \<and> 0 < g_sampleRate s \<and> store_ok s \<and> texts_ok s"

subsection \<open>Track metadata as text; the frame-pull backend\<close>

text \<open>The track metadata as the host reads it: the C strings in the text arrays.\<close>

definition emu_texts :: "'p emu_state \<Rightarrow> string \<times> string \<times> string \<times> string" where
  "emu_texts s = (c_str (g_title s), c_str (g_author s), c_str (g_type s), c_str (g_desc s))"

definition mpt_texts :: "'m mpt_state \<Rightarrow> string \<times> string \<times> string" where
  "mpt_texts s = (c_str (g_title_mpt s), c_str (g_artist s), c_str (g_type_mpt s))"

text \<open>The states a host can bring the frame-pull backend into.\<close>

inductive_set reachable_mpt :: "'m openmpt \<Rightarrow> 'm mpt_state set" for lib :: "'m openmpt" where
  start_mpt: "initial_state_mpt \<in> reachable_mpt lib"
| init_mpt: "s \<in> reachable_mpt lib \<Longrightarrow> snd (mpt_init malloc_ok sampleRate s) \<in> reachable_mpt lib"
| teardown_mpt: "s \<in> reachable_mpt lib \<Longrightarrow> mpt_teardown s \<in> reachable_mpt lib"
| load_file_mpt: "s \<in> reachable_mpt lib
     \<Longrightarrow> snd (mpt_load_file lib filename bytes sz s) \<in> reachable_mpt lib"
| compute_mpt: "s \<in> reachable_mpt lib \<Longrightarrow> snd (mpt_compute_audio_samples lib s) \<in> reachable_mpt lib"
| set_position_mpt: "s \<in> reachable_mpt lib
     \<Longrightarrow> mpt_set_position_seconds lib seconds s \<in> reachable_mpt lib"
| get_track_info_mpt: "s \<in> reachable_mpt lib \<Longrightarrow> snd (mpt_get_track_info s) \<in> reachable_mpt lib"
| set_repeat_count_mpt: "s \<in> reachable_mpt lib
     \<Longrightarrow> mpt_set_repeat_count lib count s \<in> reachable_mpt lib"
| rewind_mpt: "s \<in> reachable_mpt lib \<Longrightarrow> mpt_rewind lib s \<in> reachable_mpt lib"

text \<open>The text arrays of the frame-pull backend keep their declared length.\<close>

definition texts_ok_mpt :: "'m mpt_state \<Rightarrow> bool" where
  "texts_ok_mpt s \<longleftrightarrow>
     length (g_title_mpt s) = 256 \<and> length (g_artist s) = 256 \<and> length (g_type_mpt s) = 256
     \<and> length (g_trackInfo s) = 1024"


section \<open>Concrete backends and sessions\<close>

text \<open>A player that plays \<open>ticks\<close> ticks at a constant refresh rate; its state is the
  number of ticks played. Its factory reads the named file through the provider and
  refuses a file whose first byte is 0.\<close>

definition demo_player :: "nat \<Rightarrow> real \<Rightarrow> nat adplug" where
  "demo_player ticks rate =
     \<lparr> factory = (\<lambda>name open_file.
          case open_file name of
            Some (b # bs) \<Rightarrow> if b = 0 then None else Some 0
          | _ \<Rightarrow> None),
       update = (\<lambda>p. (Suc p < ticks, Suc p)),
       getrefresh = (\<lambda>p. rate),
       rewind = (\<lambda>p subsong. 0),
       seek = (\<lambda>p ms. ms div 10),
       songlength = (\<lambda>p subsong. ticks * 10),
       getsubsongs = (\<lambda>p. 1),
       gettitle = (\<lambda>p. ''Title''),
       getauthor = (\<lambda>p. ''Author''),
       gettype = (\<lambda>p. ''Demo''),
       getdesc = (\<lambda>p. []) \<rparr>"

text \<open>A store with three entries whose names differ in case and directory only, and a
  memory that holds their bytes.\<close>

definition demo_files :: file_map where
  "demo_files =
     [(''STANDARD.BNK'', \<lparr>data = 1, size_fd = 2\<rparr>),
      (''bank/standard.bnk'', \<lparr>data = 2, size_fd = 1\<rparr>),
      (''standard.bnk'', \<lparr>data = 3, size_fd = 3\<rparr>)]"

definition demo_mem :: "addr \<Rightarrow> uint8_t list" where
  "demo_mem a = (if a = 1 then [1, 1] else if a = 2 then [2] else if a = 3 then [3, 3, 3] else [])"

text \<open>A module whose state is its position in seconds; it refuses data whose first byte
  is 0 and has no artist.\<close>

definition demo_module :: "real openmpt" where
  "demo_module =
     \<lparr> module_create_from_memory2 =
         (\<lambda>bytes. case bytes of b # bs \<Rightarrow> if b = 0 then None else Some 0 | [] \<Rightarrow> None),
       module_set_repeat_count = (\<lambda>m count. m),
       module_get_metadata =
         (\<lambda>m key. if key = ''title'' then Some ''Title''
                   else if key = ''type_long'' then Some ''Demo'' else None),
       module_read_interleaved_float_stereo =
         (\<lambda>m rate count. (count, m + real count / real_of_int rate)),
       module_get_position_seconds = (\<lambda>m. m),
       module_get_duration_seconds = (\<lambda>m. 60),
       module_set_position_seconds = (\<lambda>m seconds. seconds) \<rparr>"

text \<open>The tick backend after \<^verbatim>\<open>emu_init(sampleRate)\<close> and a successful
  \<^verbatim>\<open>emu_load_file\<close> of a three-byte file, played by \<open>demo_player ticks rate\<close>; and that
  session after one call of \<^verbatim>\<open>emu_compute_audio_samples\<close> at 70 Hz and 44100 samples per
  second.\<close>

definition demo_loaded :: "nat \<Rightarrow> real \<Rightarrow> int \<Rightarrow> nat emu_state" where
  "demo_loaded ticks rate sampleRate =
     snd (emu_load_file (demo_player ticks rate) (Some ''song.d00'') (Some [1, 2, 3]) 3
            (snd (emu_init sampleRate initial_state)))"

definition demo_after_block :: "nat emu_state" where
  "demo_after_block =
     (case emu_compute_audio_samples (demo_player 100 70) (demo_loaded 100 70 44100) of
        Some (Return status s) \<Rightarrow> s
      | _ \<Rightarrow> demo_loaded 100 70 44100)"


text \<open>A frame-pull session with a module loaded.\<close>

definition demo_loaded_mpt :: "real mpt_state" where
  "demo_loaded_mpt =
     snd (mpt_load_file demo_module (Some ''song.mod'') (Some [1, 2, 3]) 3
            (snd (mpt_init True 48000 initial_state_mpt)))"

text \<open>That session after one block.\<close>

definition demo_played_mpt :: "real mpt_state" where
  "demo_played_mpt = snd (mpt_compute_audio_samples demo_module demo_loaded_mpt)"

text \<open>That session after a load of data the library refuses (the first byte is 0).\<close>

definition demo_refused_mpt :: "real mpt_state" where
  "demo_refused_mpt =
     snd (mpt_load_file demo_module (Some ''bad.mod'') (Some [0]) 1 demo_played_mpt)"


text \<open>A tick session with one auxiliary file registered.\<close>

definition demo_registered :: "nat emu_state" where
  "demo_registered = snd (emu_add_file (Some ''a.bnk'') (Some [1, 2]) 2 initial_state)"

text \<open>A load of a file the factory refuses (its first byte is 0), in a session that has
  a track: the load returns -1, the player is gone, and the compute call returns 1
  without touching the state.\<close>

definition demo_refused :: "nat emu_state" where
  "demo_refused =
     snd (emu_load_file (demo_player 100 70) (Some ''bad.d00'') (Some [0]) 1
            (demo_loaded 100 70 44100))"

text \<open>A player whose title has 300 characters.\<close>

definition demo_long_title :: "nat adplug" where
  "demo_long_title = (demo_player 100 70)\<lparr>gettitle := (\<lambda>p. replicate 300 CHR ''x'')\<rparr>"

section \<open>The three lookup tiers\<close>

lemma map_find_map_of: "map_find m k = map_of m k"
  by (induction m) auto

lemma map_find_append_absent:
  "k \<notin> fst ` set pre \<Longrightarrow> map_find (pre @ ys) k = map_find ys k"
  by (induction pre) auto

text \<open>The loop of the third tier yields the entry of the first pair whose stripped,
  lower-cased key matches: no earlier pair has the same key, since it would match too.\<close>

lemma scan_lower_find:
  "\<forall>k \<in> fst ` set pre. toLower (getFilename k) \<noteq> lname \<Longrightarrow>
   scan_lower (pre @ xs) xs lname =
     map_option snd (find (\<lambda>(k, v). toLower (getFilename k) = lname) xs)"
proof (induction xs arbitrary: pre)
  case Nil
  then show ?case by simp
next
  case (Cons pair rest)
  show ?case
  proof (cases "toLower (getFilename (fst pair)) = lname")
    case True
    with Cons.prems have "fst pair \<notin> fst ` set pre" by auto
    then have "map_find (pre @ pair # rest) (fst pair) = Some (snd pair)"
      by (cases pair) (simp add: map_find_append_absent)
    with True show ?thesis
      by (cases pair) simp
  next
    case False
    with Cons.prems have "\<forall>k \<in> fst ` set (pre @ [pair]). toLower (getFilename k) \<noteq> lname"
      by auto
    from Cons.IH [OF this] False show ?thesis
      by (cases pair) simp
  qed
qed

lemma scan_lower_caseless:
  "scan_lower files files (toLower (getFilename name)) = tier_caseless files name"
  using scan_lower_find [of "[]" "toLower (getFilename name)" files]
  by (simp add: tier_caseless_def)

lemma open_resolve:
  "CProvider_Memory_open files m name = map_option (stream_of m) (resolve_spec files name)"
  by (simp add: CProvider_Memory_open_def resolve_spec_def tier_exact_def tier_stripped_def
      scan_lower_caseless map_find_map_of Let_def split: option.splits)

lemma tier_caseless_None:
  "tier_caseless files name = None \<longleftrightarrow>
     (\<forall>k \<in> fst ` set files. toLower (getFilename k) \<noteq> toLower (getFilename name))"
  by (auto simp: tier_caseless_def find_None_iff)

text \<open>
  Claim C1. \<^verbatim>\<open>CProvider_Memory::open\<close> is the three-tier lookup of the specification:
  (a) the exact key, (b) the requested name without its directory prefix, (c) the
  stripped requested name against the stripped stored keys, ignoring case. The first
  tier that matches decides: an exact entry is returned whatever other entries exist, the
  second tier is consulted only when the first fails, the third only when both fail, and
  the result is the null stream exactly when no key matches in any tier.
\<close>

theorem open_three_tiers:
  "CProvider_Memory_open files m name = map_option (stream_of m) (resolve_spec files name)
   \<and> (\<forall>fd. tier_exact files name = Some fd
         \<longrightarrow> CProvider_Memory_open files m name = Some (stream_of m fd))
   \<and> (\<forall>fd. tier_exact files name = None \<and> tier_stripped files name = Some fd
         \<longrightarrow> CProvider_Memory_open files m name = Some (stream_of m fd))
   \<and> (tier_exact files name = None \<and> tier_stripped files name = None
         \<longrightarrow> CProvider_Memory_open files m name
               = map_option (stream_of m) (tier_caseless files name))
   \<and> (CProvider_Memory_open files m name = None
         \<longleftrightarrow> (\<forall>k \<in> fst ` set files.
                k \<noteq> name \<and> k \<noteq> getFilename name
                \<and> toLower (getFilename k) \<noteq> toLower (getFilename name)))"
proof -
  have eq: "CProvider_Memory_open files m name = map_option (stream_of m) (resolve_spec files name)"
    by (rule open_resolve)
  have a: "tier_exact files name = None \<longleftrightarrow> (\<forall>k \<in> fst ` set files. k \<noteq> name)"
    unfolding tier_exact_def map_of_eq_None_iff by blast
  have b: "tier_stripped files name = None \<longleftrightarrow> (\<forall>k \<in> fst ` set files. k \<noteq> getFilename name)"
    unfolding tier_stripped_def map_of_eq_None_iff by blast
  have none: "resolve_spec files name = None \<longleftrightarrow>
      (\<forall>k \<in> fst ` set files. k \<noteq> name \<and> k \<noteq> getFilename name
          \<and> toLower (getFilename k) \<noteq> toLower (getFilename name))"
  proof -
    have "resolve_spec files name = None \<longleftrightarrow>
        tier_exact files name = None \<and> tier_stripped files name = None
        \<and> tier_caseless files name = None"
      by (simp add: resolve_spec_def split: option.splits)
    then show ?thesis
      unfolding a b tier_caseless_None by blast
  qed
  show ?thesis
    unfolding eq using none
    by (simp add: resolve_spec_def split: option.splits)
qed

text \<open>In the store \<open>demo_files\<close> the request \<open>standard.bnk\<close> has an exact entry, which
  wins over the upper-case and the path-prefixed entries; the request
  \<open>x/Standard.Bnk\<close> fails in the first two tiers and is served by the third, from
  the first entry in key order; \<open>other.bnk\<close> is not found.\<close>

theorem open_three_tiers_witness:
  "tier_exact demo_files ''standard.bnk'' = Some \<lparr>data = 3, size_fd = 3\<rparr>
   \<and> CProvider_Memory_open demo_files demo_mem ''standard.bnk'' = Some [3, 3, 3]
   \<and> tier_exact demo_files ''x/Standard.Bnk'' = None
   \<and> tier_stripped demo_files ''x/Standard.Bnk'' = None
   \<and> CProvider_Memory_open demo_files demo_mem ''x/Standard.Bnk'' = Some [1, 1]
   \<and> CProvider_Memory_open demo_files demo_mem ''other.bnk'' = None"
proof -
  have a: "tier_exact demo_files ''standard.bnk'' = Some \<lparr>data = 3, size_fd = 3\<rparr>"
    by (simp add: demo_files_def tier_exact_def)
  have b: "tier_exact demo_files ''x/Standard.Bnk'' = None"
    by (simp add: demo_files_def tier_exact_def)
  have c: "tier_stripped demo_files ''x/Standard.Bnk'' = None"
    by (simp add: demo_files_def tier_stripped_def getFilename_def)
  have d: "tier_caseless demo_files ''x/Standard.Bnk'' = Some \<lparr>data = 1, size_fd = 2\<rparr>"
    by code_simp
  have e: "resolve_spec demo_files ''other.bnk'' = None"
    by code_simp
  from a open_three_tiers [of demo_files demo_mem "''standard.bnk''"]
  have "CProvider_Memory_open demo_files demo_mem ''standard.bnk''
      = Some (stream_of demo_mem \<lparr>data = 3, size_fd = 3\<rparr>)"
    by blast
  moreover from open_three_tiers [of demo_files demo_mem "''x/Standard.Bnk''"]
  have "tier_exact demo_files ''x/Standard.Bnk'' = None
        \<and> tier_stripped demo_files ''x/Standard.Bnk'' = None
      \<longrightarrow> CProvider_Memory_open demo_files demo_mem ''x/Standard.Bnk''
          = map_option (stream_of demo_mem) (tier_caseless demo_files ''x/Standard.Bnk'')"
    by blast
  with b c d have "CProvider_Memory_open demo_files demo_mem ''x/Standard.Bnk''
      = Some (stream_of demo_mem \<lparr>data = 1, size_fd = 2\<rparr>)"
    by simp
  moreover from e open_three_tiers [of demo_files demo_mem "''other.bnk''"]
  have "CProvider_Memory_open demo_files demo_mem ''other.bnk'' = None"
    by simp
  ultimately show ?thesis
    using a b c by (simp add: stream_of_def demo_mem_def)
qed

section \<open>The file store as a map\<close>

lemma map_find_assign:
  "map_find (map_assign m k v) k' = (if k' = k then Some v else map_find m k')"
  by (induction m) auto

lemma map_find_erase_other: "k' \<noteq> k \<Longrightarrow> map_find (map_erase m k) k' = map_find m k'"
  by (induction m) auto

lemma map_find_None_iff: "map_find m k = None \<longleftrightarrow> k \<notin> fst ` set m"
  by (simp add: map_find_map_of map_of_eq_None_iff)

lemma map_find_Some_mem: "map_find m k = Some v \<Longrightarrow> (k, v) \<in> set m"
  by (simp add: map_find_map_of map_of_SomeD)

lemma set_map_erase_subset: "set (map_erase m k) \<subseteq> set m"
  by (induction m) (auto split: if_splits)

lemma sorted_keys_erase:
  "sorted_wrt (<) (map fst m) \<Longrightarrow> sorted_wrt (<) (map fst (map_erase m k))"
proof (induction m)
  case Nil
  then show ?case by simp
next
  case (Cons pair m)
  then show ?case
    using set_map_erase_subset [of m k] by (cases pair) auto
qed

lemma set_map_erase:
  fixes m :: "('k :: linorder \<times> 'v) list"
  shows "sorted_wrt (<) (map fst m) \<Longrightarrow> set (map_erase m k) = {pair \<in> set m. fst pair \<noteq> k}"
proof (induction m)
  case Nil
  then show ?case by simp
next
  case (Cons pair m)
  obtain k' v' where pair: "pair = (k', v')" by (cases pair)
  from Cons.prems pair have less: "\<forall>x \<in> set m. k' < fst x" and sorted: "sorted_wrt (<) (map fst m)"
    by simp_all
  from less have ne: "\<forall>x \<in> set m. fst x \<noteq> k'" by (metis order_less_irrefl)
  show ?case
  proof (cases "k' = k")
    case True
    with ne have "{p \<in> set (pair # m). fst p \<noteq> k} = set m"
      using pair by auto
    with True pair show ?thesis by simp
  next
    case False
    have "set (map_erase (pair # m) k) = insert pair (set (map_erase m k))"
      using False pair by simp
    also have "\<dots> = insert pair {p \<in> set m. fst p \<noteq> k}"
      by (simp only: Cons.IH [OF sorted])
    also have "\<dots> = {p \<in> set (pair # m). fst p \<noteq> k}"
      using False pair by auto
    finally show ?thesis .
  qed
qed

lemma set_map_assign:
  "sorted_wrt (<) (map fst m) \<Longrightarrow>
   set (map_assign m k v) = insert (k, v) {pair \<in> set m. fst pair \<noteq> k}"
proof (induction m)
  case Nil
  then show ?case by simp
next
  case (Cons pair m)
  obtain k' v' where pair: "pair = (k', v')" by (cases pair)
  from Cons.prems pair have less: "\<forall>x \<in> set m. k' < fst x" and sorted: "sorted_wrt (<) (map fst m)"
    by simp_all
  consider "k < k'" | "k = k'" | "k' < k" by (rule linorder_cases)
  then show ?case
  proof cases
    case 1
    with less have "\<forall>x \<in> set m. fst x \<noteq> k" by (metis order_less_asym)
    then have "{p \<in> set m. fst p \<noteq> k} = set m" by blast
    moreover have "set (map_assign (pair # m) k v) = insert (k, v) (insert pair (set m))"
      using 1 pair by simp
    moreover have "{p \<in> set (pair # m). fst p \<noteq> k} = insert pair {p \<in> set m. fst p \<noteq> k}"
      using 1 pair by auto
    ultimately show ?thesis by simp
  next
    case 2
    from less have "\<forall>x \<in> set m. fst x \<noteq> k'" by (metis order_less_irrefl)
    with 2 have "{p \<in> set m. fst p \<noteq> k} = set m" by blast
    moreover have "set (map_assign (pair # m) k v) = insert (k, v) (set m)"
      using 2 pair by simp
    moreover have "{p \<in> set (pair # m). fst p \<noteq> k} = {p \<in> set m. fst p \<noteq> k}"
      using 2 pair by auto
    ultimately show ?thesis by simp
  next
    case 3
    then have nk: "\<not> k < k'" "k \<noteq> k'" by auto
    then have "set (map_assign (pair # m) k v) = insert pair (set (map_assign m k v))"
      using pair by simp
    also have "\<dots> = insert pair (insert (k, v) {p \<in> set m. fst p \<noteq> k})"
      by (simp only: Cons.IH [OF sorted])
    also have "\<dots> = insert (k, v) {p \<in> set (pair # m). fst p \<noteq> k}"
      using 3 pair by auto
    finally show ?thesis .
  qed
qed

lemma sorted_keys_assign:
  "sorted_wrt (<) (map fst m) \<Longrightarrow> sorted_wrt (<) (map fst (map_assign m k v))"
proof (induction m)
  case Nil
  then show ?case by simp
next
  case (Cons pair m)
  obtain k' v' where pair: "pair = (k', v')" by (cases pair)
  from Cons.prems pair have less: "\<forall>x \<in> set m. k' < fst x" and sorted: "sorted_wrt (<) (map fst m)"
    by simp_all
  note set = set_map_assign [OF sorted, of k v]
  consider "k < k'" | "k = k'" | "k' < k" by (rule linorder_cases)
  then show ?case
  proof cases
    case 1
    with less have "\<forall>x \<in> set m. k < fst x" by (metis order_less_trans)
    with 1 pair less sorted show ?thesis by simp
  next
    case 2
    with pair less sorted show ?thesis by simp
  next
    case 3
    from 3 have nk: "\<not> k < k'" "k \<noteq> k'" by auto
    have "\<forall>x \<in> set (map_assign m k v). k' < fst x"
      unfolding set using 3 less by simp
    with nk pair Cons.IH [OF sorted] show ?thesis by simp
  qed
qed

lemma distinct_ptr_erase:
  "distinct (map f m) \<Longrightarrow> distinct (map f (map_erase m k))"
proof (induction m)
  case Nil
  then show ?case by simp
next
  case (Cons pair m)
  obtain k' v' where pair: "pair = (k', v')" by (cases pair)
  from Cons pair show ?case
    using set_map_erase_subset [of m k] by auto
qed

lemma set_map_assign_subset: "set (map_assign m k v) \<subseteq> insert (k, v) (set m)"
  by (induction m) (auto split: if_splits)

lemma distinct_ptr_assign:
  "distinct (map f m) \<Longrightarrow> f (k, v) \<notin> f ` set m \<Longrightarrow> distinct (map f (map_assign m k v))"
proof (induction m)
  case Nil
  then show ?case by simp
next
  case (Cons pair m)
  obtain k' v' where pair: "pair = (k', v')" by (cases pair)
  from Cons.prems pair have d: "distinct (map f m)" and nk: "f (k', v') \<notin> f ` set m"
    and nv: "f (k, v) \<notin> f ` set m" and ne: "f (k, v) \<noteq> f (k', v')"
    by auto
  have "f (k', v') \<notin> f ` set (map_assign m k v)"
    using set_map_assign_subset [of m k v] nk ne by auto
  with Cons.IH [OF d nv] pair d nk nv ne show ?case
    by auto
qed

lemma fold_max_mono: "b \<le> fold max xs (b :: nat)"
proof (induction xs arbitrary: b)
  case Nil
  then show ?case by simp
next
  case (Cons x xs)
  have "b \<le> max x b" by simp
  also have "\<dots> \<le> fold max xs (max x b)" by (rule Cons.IH)
  finally show ?case by simp
qed

lemma fold_max_ge: "a \<in> set as \<Longrightarrow> a \<le> fold max as (b :: nat)"
proof (induction as arbitrary: b)
  case Nil
  then show ?case by simp
next
  case (Cons x xs)
  show ?case
  proof (cases "a = x")
    case True
    have "x \<le> max x b" by simp
    also have "\<dots> \<le> fold max xs (max x b)" by (rule fold_max_mono)
    finally show ?thesis using True by simp
  next
    case False
    with Cons.prems have "a \<in> set xs" by simp
    from Cons.IH [OF this] show ?thesis by simp
  qed
qed

lemma fresh_not_live: "fresh as \<notin> set as"
  using fold_max_ge [of "fresh as" as 0] by (auto simp: fresh_def)

lemma fresh_not_null: "fresh as \<noteq> 0"
  by (simp add: fresh_def)

lemma set_delete_buf: "set (delete_buf a as) = set as - {a}"
  by (auto simp: delete_buf_def)

lemma distinct_delete_buf: "distinct as \<Longrightarrow> distinct (delete_buf a as)"
  by (simp add: delete_buf_def)

lemma set_delete_all: "set (delete_all m as) = set as - ptr ` set m"
  by (induction m arbitrary: as) (auto simp: set_delete_buf)

lemma distinct_delete_all: "distinct as \<Longrightarrow> distinct (delete_all m as)"
  by (induction m arbitrary: as) (auto simp: distinct_delete_buf)

lemma map_erase_absent: "map_find m k = None \<Longrightarrow> map_erase m k = m"
  by (induction m) (auto split: if_splits)

lemma emu_add_file_eq:
  assumes "0 < sz"
  shows "emu_add_file (Some name) (Some buf) sz s =
     (0, s\<lparr>live := fresh (released (g_files s) name (live s)) # released (g_files s) name (live s),
           mem := (mem s)(fresh (released (g_files s) name (live s)) := take (nat sz) buf),
           g_files := map_assign (map_erase (g_files s) name) name
              \<lparr>data = fresh (released (g_files s) name (live s)), size_fd = nat sz\<rparr>\<rparr>)"
  using assms
  by (cases "map_find (g_files s) name")
     (simp_all add: emu_add_file_def released_def Let_def map_erase_absent)

lemma emu_add_file_invalid:
  "filename = None \<or> bytes = None \<or> sz \<le> 0 \<Longrightarrow> emu_add_file filename bytes sz s = (- 1, s)"
  by (auto simp: emu_add_file_def split: option.splits)

lemma released_set:
  assumes "store_ok s"
  shows "set (released (g_files s) name (live s)) = ptr ` set (map_erase (g_files s) name)"
    and "distinct (released (g_files s) name (live s))"
proof -
  from assms have sorted: "sorted_wrt (<) (map fst (g_files s))"
    and dptr: "distinct (map ptr (g_files s))"
    and dlive: "distinct (live s)"
    and live: "set (live s) = ptr ` set (g_files s)"
    by (simp_all add: store_ok_def)
  show "distinct (released (g_files s) name (live s))"
    using dlive by (simp add: released_def distinct_delete_buf split: option.splits)
  show "set (released (g_files s) name (live s)) = ptr ` set (map_erase (g_files s) name)"
  proof (cases "map_find (g_files s) name")
    case None
    then show ?thesis
      by (simp add: released_def map_erase_absent live)
  next
    case (Some fd)
    then have mem: "(name, fd) \<in> set (g_files s)" by (rule map_find_Some_mem)
    have inj: "inj_on ptr (set (g_files s))"
      using dptr by (simp add: distinct_map)
    have keys: "inj_on fst (set (g_files s))"
      using sorted by (metis distinct_map strict_sorted_iff sorted_wrt_map)
    have "{pair \<in> set (g_files s). fst pair \<noteq> name} = set (g_files s) - {(name, fd)}"
      using keys mem unfolding inj_on_def by fastforce
    then have "ptr ` set (map_erase (g_files s) name) = ptr ` (set (g_files s) - {(name, fd)})"
      by (simp add: set_map_erase [OF sorted])
    also have "\<dots> = ptr ` set (g_files s) - {data fd}"
      using inj mem unfolding inj_on_def by fastforce
    finally show ?thesis
      using Some by (simp add: released_def set_delete_buf live)
  qed
qed

lemma store_ok_add_file:
  assumes "store_ok s"
  shows "store_ok (snd (emu_add_file filename bytes sz s))"
proof (cases "filename = None \<or> bytes = None \<or> sz \<le> 0")
  case True
  then show ?thesis using assms by (simp add: emu_add_file_invalid)
next
  case False
  then obtain name buf where args: "filename = Some name" "bytes = Some buf" "0 < sz"
    by auto
  let ?files1 = "map_erase (g_files s) name"
  let ?live1 = "released (g_files s) name (live s)"
  let ?a = "fresh ?live1"
  let ?fd = "\<lparr>data = ?a, size_fd = nat sz\<rparr>"
  from assms have sorted: "sorted_wrt (<) (map fst (g_files s))"
    and dptr: "distinct (map ptr (g_files s))"
    by (simp_all add: store_ok_def)
  note rel = released_set [OF assms, of name]
  have sorted1: "sorted_wrt (<) (map fst ?files1)"
    using sorted by (rule sorted_keys_erase)
  have absent: "\<forall>pair \<in> set ?files1. fst pair \<noteq> name"
    by (simp add: set_map_erase [OF sorted])
  have fresh: "?a \<notin> ptr ` set ?files1"
    using fresh_not_live [of ?live1] rel(1) by simp
  have set2: "set (map_assign ?files1 name ?fd) = insert (name, ?fd) (set ?files1)"
    using absent by (auto simp: set_map_assign [OF sorted1])
  have "sorted_wrt (<) (map fst (map_assign ?files1 name ?fd))"
    using sorted1 by (rule sorted_keys_assign)
  moreover have "distinct (map ptr (map_assign ?files1 name ?fd))"
    using distinct_ptr_erase [OF dptr] fresh by (intro distinct_ptr_assign) simp_all
  moreover have "distinct (?a # ?live1)"
    using rel(2) fresh_not_live [of ?live1] by simp
  moreover have "set (?a # ?live1) = ptr ` set (map_assign ?files1 name ?fd)"
    using rel(1) by (simp add: set2)
  ultimately show ?thesis
    by (simp add: args emu_add_file_eq store_ok_def)
qed

section \<open>The block-filling loop\<close>

lemma float_to_int_nonneg: "0 \<le> x \<Longrightarrow> float_to_int x = \<lfloor>x\<rfloor>"
  by (simp add: float_to_int_def)

lemma rendered_bounds:
  assumes "0 \<le> g_sampleAccumulator s" and "n \<le> AUDIO_BUFFER_SIZE"
  shows "0 \<le> rendered n s" and "rendered n s \<le> \<lfloor>g_sampleAccumulator s\<rfloor>"
    and "n + rendered n s \<le> AUDIO_BUFFER_SIZE"
    and "real_of_int (rendered n s) \<le> g_sampleAccumulator s"
proof -
  show a: "0 \<le> rendered n s"
    using assms by (simp add: rendered_def Let_def)
  show b: "rendered n s \<le> \<lfloor>g_sampleAccumulator s\<rfloor>"
    using assms by (simp add: rendered_def Let_def float_to_int_nonneg)
  show "n + rendered n s \<le> AUDIO_BUFFER_SIZE"
    using assms by (simp add: rendered_def Let_def)
  from b have "real_of_int (rendered n s) \<le> real_of_int \<lfloor>g_sampleAccumulator s\<rfloor>"
    by simp
  then show "real_of_int (rendered n s) \<le> g_sampleAccumulator s"
    by linarith
qed

lemma loop_body_eq:
  "loop_body lib n s =
     (let k = rendered n s;
          s1 = s\<lparr>g_sampleAccumulator := g_sampleAccumulator s - real_of_int k\<rparr>
      in if n + k < AUDIO_BUFFER_SIZE then
           (case g_player s of
              None \<Rightarrow> NullDeref
            | Some p \<Rightarrow>
                (let s2 = s1\<lparr>g_player := Some (snd (update lib p)),
                              g_currentTick := g_currentTick s + 1\<rparr>
                 in if fst (update lib p) then
                      Next (n + k)
                        (s2\<lparr>g_sampleAccumulator :=
                              g_sampleAccumulator s - real_of_int k + getSamplesPerTick lib s2\<rparr>)
                    else Return 1 (s2\<lparr>g_audioBufferLength := (n + k) * 2 * 2\<rparr>)))
         else Next (n + k) s1)"
  by (simp add: loop_body_def rendered_def Let_def split: prod.splits option.splits)

lemma loop_frame_refl: "loop_frame s s"
  by (simp add: loop_frame_def)

lemma loop_frame_trans: "loop_frame s s1 \<Longrightarrow> loop_frame s1 s2 \<Longrightarrow> loop_frame s s2"
  by (simp add: loop_frame_def)


text \<open>One pass of the loop body from a state with a player.\<close>

lemma loop_body_step:
  assumes "g_player s = Some p" and "n \<le> AUDIO_BUFFER_SIZE" and "0 < g_sampleRate s"
  shows "case loop_body lib n s of
           Next n' s' \<Rightarrow> n \<le> n' \<and> n' \<le> AUDIO_BUFFER_SIZE \<and> loop_frame s s' \<and> g_player s' \<noteq> None
             \<and> (0 \<le> g_sampleAccumulator s \<longrightarrow> 0 \<le> g_sampleAccumulator s')
         | Return status s' \<Rightarrow> status = 1 \<and> loop_frame s s' \<and> g_player s' \<noteq> None
             \<and> (0 \<le> g_sampleAccumulator s \<longrightarrow> 0 \<le> g_sampleAccumulator s')
         | NullDeref \<Rightarrow> False"
proof -
  let ?k = "rendered n s"
  have k0: "0 \<le> ?k" and kn: "n + ?k \<le> AUDIO_BUFFER_SIZE"
    using assms(2) by (simp_all add: rendered_def Let_def)
  have acc: "0 \<le> g_sampleAccumulator s \<Longrightarrow> real_of_int ?k \<le> g_sampleAccumulator s"
    by (rule rendered_bounds(4)) (use assms(2) in simp_all)
  have spt: "0 < getSamplesPerTick lib
       (s\<lparr>g_sampleAccumulator := g_sampleAccumulator s - real_of_int ?k,
          g_player := Some (snd (update lib p)), g_currentTick := g_currentTick s + 1\<rparr>)"
    using assms(3) by (simp add: getSamplesPerTick_def Let_def)
  show ?thesis
    unfolding loop_body_eq Let_def using assms(1) k0 kn acc spt
    by (auto simp: loop_frame_def)
qed

lemmas while_loop_induct = while_loop.raw_induct [rotated, consumes 1, case_names step]

lemma while_loop_post:
  assumes "while_loop lib n s = Some y"
  shows "g_player s \<noteq> None \<longrightarrow> n \<le> AUDIO_BUFFER_SIZE \<longrightarrow> 0 < g_sampleRate s \<longrightarrow> loop_post s y"
  using assms
proof (induction rule: while_loop_induct)
  case (step wl lib n s y)
  show ?case
  proof (intro impI)
    assume pl: "g_player s \<noteq> None" and n: "n \<le> AUDIO_BUFFER_SIZE" and sr: "0 < g_sampleRate s"
    from pl obtain p where p: "g_player s = Some p" by auto
    show "loop_post s y"
    proof (cases "n < AUDIO_BUFFER_SIZE")
      case False
      with n step.hyps p show ?thesis
        by (auto simp: loop_post_def loop_frame_refl)
    next
      case True
      note step = loop_body_step [OF p n sr, of lib]
      show ?thesis
      proof (cases "loop_body lib n s")
        case (Return status s')
        with True step.hyps step show ?thesis
          by (auto simp: loop_post_def)
      next
        case (Next n' s')
        with True step.hyps have rec: "wl lib n' s' = Some y" by simp
        from Next step have fr: "loop_frame s s'" and pl': "g_player s' \<noteq> None"
          and n': "n' \<le> AUDIO_BUFFER_SIZE"
          and acc: "0 \<le> g_sampleAccumulator s \<longrightarrow> 0 \<le> g_sampleAccumulator s'"
          by simp_all
        from fr sr have sr': "0 < g_sampleRate s'" by (simp add: loop_frame_def)
        from step.IH [OF rec] pl' n' sr' have post: "loop_post s' y" by simp
        from post fr acc show ?thesis
          by (auto simp: loop_post_def split: flow.splits intro: loop_frame_trans)
      next
        case NullDeref
        with step show ?thesis by simp
      qed
    qed
  qed
qed

section \<open>Every reachable state satisfies the invariant\<close>

lemma text_ok_replicate: "0 < n \<Longrightarrow> text_ok n (replicate n NUL)"
  by (simp add: text_ok_def)

lemma strncpy_prefix_length: "length (take n (c_str src @ replicate n NUL)) = n"
  by simp

lemma strncpy_length: "n \<le> length arr \<Longrightarrow> length (strncpy arr src n) = length arr"
  unfolding strncpy_def length_append strncpy_prefix_length by simp

lemma strncpy_nth_beyond:
  assumes "n \<le> i" and "n \<le> length arr"
  shows "strncpy arr src n ! i = arr ! i"
proof -
  have "strncpy arr src n ! i = drop n arr ! (i - n)"
    unfolding strncpy_def using assms(1)
    by (subst nth_append) (simp only: strncpy_prefix_length, simp)
  also have "\<dots> = arr ! i"
    using assms by simp
  finally show ?thesis .
qed

lemma text_ok_strncpy:
  "n < capacity \<Longrightarrow> text_ok capacity arr \<Longrightarrow> text_ok capacity (strncpy arr src n)"
  by (simp add: text_ok_def strncpy_length strncpy_nth_beyond)

lemma session_ok_initial: "session_ok initial_state"
  by (simp add: session_ok_def initial_state_def store_ok_def texts_ok_def text_ok_replicate)

lemma store_ok_cleared:
  assumes "store_ok s"
  shows "store_ok (s\<lparr>live := delete_all (g_files s) (live s), g_files := []\<rparr>)"
proof -
  from assms have "set (live s) = ptr ` set (g_files s)" and "distinct (live s)"
    by (simp_all add: store_ok_def)
  then show ?thesis
    by (simp add: store_ok_def set_delete_all distinct_delete_all)
qed

lemma store_ok_same:
  "g_files s' = g_files s \<Longrightarrow> live s' = live s \<Longrightarrow> store_ok s' = store_ok s"
  by (simp add: store_ok_def)

lemma texts_ok_same:
  "g_title s' = g_title s \<Longrightarrow> g_author s' = g_author s \<Longrightarrow> g_type s' = g_type s \<Longrightarrow>
   g_desc s' = g_desc s \<Longrightarrow> texts_ok s' = texts_ok s"
  by (simp add: texts_ok_def)

lemma session_ok_init:
  assumes "session_ok s"
  shows "session_ok (snd (emu_init sampleRate s))"
proof -
  let ?s' = "snd (emu_init sampleRate s)"
  from assms have st: "store_ok s" and tx: "texts_ok s" by (simp_all add: session_ok_def)
  have "store_ok ?s' = store_ok (s\<lparr>live := delete_all (g_files s) (live s), g_files := []\<rparr>)"
    by (rule store_ok_same) (simp_all add: emu_init_def Let_def)
  with store_ok_cleared [OF st] have "store_ok ?s'" by simp
  moreover have "texts_ok ?s' = texts_ok s"
    by (rule texts_ok_same) (simp_all add: emu_init_def Let_def)
  moreover have "g_sampleAccumulator ?s' = 0" "0 < g_sampleRate ?s'"
    by (simp_all add: emu_init_def Let_def)
  ultimately show ?thesis using tx by (simp add: session_ok_def)
qed

lemma session_ok_teardown:
  assumes "session_ok s"
  shows "session_ok (emu_teardown s)"
proof -
  let ?s' = "emu_teardown s"
  from assms have st: "store_ok s" and tx: "texts_ok s" by (simp_all add: session_ok_def)
  have "store_ok ?s' = store_ok (s\<lparr>live := delete_all (g_files s) (live s), g_files := []\<rparr>)"
    by (rule store_ok_same) (simp_all add: emu_teardown_def Let_def)
  with store_ok_cleared [OF st] have "store_ok ?s'" by simp
  moreover have "texts_ok ?s' = texts_ok s"
    by (rule texts_ok_same) (simp_all add: emu_teardown_def Let_def)
  moreover have "g_sampleAccumulator ?s' = g_sampleAccumulator s" "g_sampleRate ?s' = g_sampleRate s"
    by (simp_all add: emu_teardown_def Let_def)
  ultimately show ?thesis using assms by (simp add: session_ok_def)
qed

text \<open>What \<^verbatim>\<open>emu_add_file\<close> leaves alone: everything but the store and the memory.\<close>

lemma emu_add_file_frame:
  "\<exists>l m f. snd (emu_add_file filename bytes sz s) = s\<lparr>live := l, mem := m, g_files := f\<rparr>"
proof (cases "filename = None \<or> bytes = None \<or> sz \<le> 0")
  case True
  then have "snd (emu_add_file filename bytes sz s) = s\<lparr>live := live s, mem := mem s, g_files := g_files s\<rparr>"
    by (simp add: emu_add_file_invalid)
  then show ?thesis by blast
next
  case False
  then obtain name buf where "filename = Some name" "bytes = Some buf" "0 < sz" by auto
  then show ?thesis
    using emu_add_file_eq [of sz name buf s] by auto
qed

lemma session_ok_add_file:
  assumes "session_ok s"
  shows "session_ok (snd (emu_add_file filename bytes sz s))"
proof -
  obtain l m f where "snd (emu_add_file filename bytes sz s) = s\<lparr>live := l, mem := m, g_files := f\<rparr>"
    using emu_add_file_frame by blast
  then have "g_sampleAccumulator (snd (emu_add_file filename bytes sz s)) = g_sampleAccumulator s"
    and "g_sampleRate (snd (emu_add_file filename bytes sz s)) = g_sampleRate s"
    and "texts_ok (snd (emu_add_file filename bytes sz s)) = texts_ok s"
    by (simp_all add: texts_ok_def)
  with assms store_ok_add_file [of s filename bytes sz] show ?thesis
    by (simp add: session_ok_def)
qed

lemma emu_load_file_invalid:
  "\<not> g_opl s \<or> filename = None \<or> bytes = None \<or> sz \<le> 0 \<Longrightarrow>
   emu_load_file lib filename bytes sz s = (- 1, s)"
  by (auto simp: emu_load_file_def split: option.splits)

lemma emu_load_file_eq:
  assumes "g_opl s" and "0 < sz"
  shows "emu_load_file lib (Some name) (Some buf) sz s =
     (case made_player lib name buf sz s of
        None \<Rightarrow> (- 1, (before_factory name buf sz s)\<lparr>g_player := None\<rparr>)
      | Some p \<Rightarrow>
          (0, (before_factory name buf sz s)
                \<lparr>g_player := Some p,
                 g_title := strncpy (g_title s) (gettitle lib p) 255,
                 g_author := strncpy (g_author s) (getauthor lib p) 255,
                 g_type := strncpy (g_type s) (gettype lib p) 255,
                 g_desc := strncpy (g_desc s) (getdesc lib p) 1023,
                 g_maxPosition := songlength lib p (- 1),
                 g_currentPosition := 0\<rparr>))"
proof -
  let ?s0 = "s\<lparr>g_player := None, g_sampleAccumulator := 0, g_totalSamplesGenerated := 0,
               g_currentTick := 0\<rparr>"
  obtain l m f where fr: "snd (emu_add_file (Some name) (Some buf) sz ?s0)
      = ?s0\<lparr>live := l, mem := m, g_files := f\<rparr>"
    using emu_add_file_frame by blast
  show ?thesis
    using assms
    by (simp add: emu_load_file_def made_player_def before_factory_def Let_def fr
        split: option.splits)
qed

lemma before_factory_fields:
  "g_sampleAccumulator (before_factory name buf sz s) = 0"
  "g_totalSamplesGenerated (before_factory name buf sz s) = 0"
  "g_currentTick (before_factory name buf sz s) = 0"
  "g_player (before_factory name buf sz s) = None"
  "g_sampleRate (before_factory name buf sz s) = g_sampleRate s"
  "g_title (before_factory name buf sz s) = g_title s"
  "g_author (before_factory name buf sz s) = g_author s"
  "g_type (before_factory name buf sz s) = g_type s"
  "g_desc (before_factory name buf sz s) = g_desc s"
  "g_opl (before_factory name buf sz s) = g_opl s"
  "g_audioBuffer (before_factory name buf sz s) = g_audioBuffer s"
  "g_currentPosition (before_factory name buf sz s) = g_currentPosition s"
  "g_maxPosition (before_factory name buf sz s) = g_maxPosition s"
proof -
  let ?s0 = "s\<lparr>g_player := None, g_sampleAccumulator := 0, g_totalSamplesGenerated := 0,
               g_currentTick := 0\<rparr>"
  obtain l m f where fr: "before_factory name buf sz s = ?s0\<lparr>live := l, mem := m, g_files := f\<rparr>"
    unfolding before_factory_def using emu_add_file_frame by blast
  show "g_sampleAccumulator (before_factory name buf sz s) = 0"
    "g_totalSamplesGenerated (before_factory name buf sz s) = 0"
    "g_currentTick (before_factory name buf sz s) = 0"
    "g_player (before_factory name buf sz s) = None"
    "g_sampleRate (before_factory name buf sz s) = g_sampleRate s"
    "g_title (before_factory name buf sz s) = g_title s"
    "g_author (before_factory name buf sz s) = g_author s"
    "g_type (before_factory name buf sz s) = g_type s"
    "g_desc (before_factory name buf sz s) = g_desc s"
    "g_opl (before_factory name buf sz s) = g_opl s"
    "g_audioBuffer (before_factory name buf sz s) = g_audioBuffer s"
    "g_currentPosition (before_factory name buf sz s) = g_currentPosition s"
    "g_maxPosition (before_factory name buf sz s) = g_maxPosition s"
    by (simp_all add: fr)
qed

lemma session_ok_before_factory:
  assumes "session_ok s"
  shows "session_ok (before_factory name buf sz s)"
proof -
  have "session_ok (s\<lparr>g_player := None, g_sampleAccumulator := 0, g_totalSamplesGenerated := 0,
               g_currentTick := 0\<rparr>)"
    using assms by (simp add: session_ok_def store_ok_def texts_ok_def)
  then show ?thesis
    unfolding before_factory_def by (rule session_ok_add_file)
qed

lemma session_ok_load_file:
  assumes "session_ok s"
  shows "session_ok (snd (emu_load_file lib filename bytes sz s))"
proof (cases "\<not> g_opl s \<or> filename = None \<or> bytes = None \<or> sz \<le> 0")
  case True
  then show ?thesis using assms by (simp add: emu_load_file_invalid)
next
  case False
  then obtain name buf where args: "filename = Some name" "bytes = Some buf" "0 < sz" "g_opl s"
    by auto
  let ?b = "before_factory name buf sz s"
  from session_ok_before_factory [OF assms, of name buf sz]
  have b: "0 \<le> g_sampleAccumulator ?b" "0 < g_sampleRate ?b" "store_ok ?b" "texts_ok ?b"
    by (simp_all add: session_ok_def)
  from assms have tx: "texts_ok s" by (simp add: session_ok_def)
  show ?thesis
  proof (cases "made_player lib name buf sz s")
    case None
    then have "snd (emu_load_file lib filename bytes sz s) = ?b\<lparr>g_player := None\<rparr>"
      using args by (simp add: emu_load_file_eq)
    with b show ?thesis
      by (simp add: session_ok_def store_ok_def texts_ok_def)
  next
    case (Some p)
    then have eq: "snd (emu_load_file lib filename bytes sz s) =
        ?b\<lparr>g_player := Some p,
           g_title := strncpy (g_title s) (gettitle lib p) 255,
           g_author := strncpy (g_author s) (getauthor lib p) 255,
           g_type := strncpy (g_type s) (gettype lib p) 255,
           g_desc := strncpy (g_desc s) (getdesc lib p) 1023,
           g_maxPosition := songlength lib p (- 1),
           g_currentPosition := 0\<rparr>"
      using args by (simp add: emu_load_file_eq)
    from tx have "text_ok 256 (strncpy (g_title s) (gettitle lib p) 255)"
      "text_ok 256 (strncpy (g_author s) (getauthor lib p) 255)"
      "text_ok 256 (strncpy (g_type s) (gettype lib p) 255)"
      "text_ok 1024 (strncpy (g_desc s) (getdesc lib p) 1023)"
      by (simp_all add: texts_ok_def text_ok_strncpy)
    with b show ?thesis
      unfolding eq by (simp add: session_ok_def store_ok_def texts_ok_def)
  qed
qed

text \<open>\<^verbatim>\<open>emu_compute_audio_samples\<close>, case by case.\<close>

lemma emu_compute_no_track:
  "g_player s = None \<or> \<not> g_opl s \<or> \<not> g_audioBuffer s \<Longrightarrow>
   emu_compute_audio_samples lib s = Some (Return 1 s)"
  by (auto simp: emu_compute_audio_samples_def)

lemma emu_compute_cases:
  assumes "emu_compute_audio_samples lib s = Some y" and "0 < g_sampleRate s"
  shows "(g_player s = None \<or> \<not> g_opl s \<or> \<not> g_audioBuffer s) \<and> y = Return 1 s
    \<or> g_player s \<noteq> None \<and> g_opl s \<and> g_audioBuffer s \<and>
       (\<exists>s1. while_loop lib 0 s = Some (Return 1 s1) \<and> loop_post s (Return 1 s1)
          \<and> y = Return 1 s1)
    \<or> g_player s \<noteq> None \<and> g_opl s \<and> g_audioBuffer s \<and>
       (\<exists>s1. while_loop lib 0 s = Some (Next AUDIO_BUFFER_SIZE s1)
          \<and> loop_post s (Next AUDIO_BUFFER_SIZE s1)
          \<and> y = Return 0
                (s1\<lparr>g_totalSamplesGenerated := g_totalSamplesGenerated s + 512,
                    g_currentPosition :=
                      double_to_ulong
                        (real (g_totalSamplesGenerated s + 512) / real_of_int (g_sampleRate s)
                          * 1000),
                    g_audioBufferLength := 2048\<rparr>))"
proof (cases "g_player s = None \<or> \<not> g_opl s \<or> \<not> g_audioBuffer s")
  case True
  with assms(1) show ?thesis by (auto simp: emu_compute_audio_samples_def)
next
  case False
  with assms(1) obtain r where r: "while_loop lib 0 s = Some r"
    by (auto simp: emu_compute_audio_samples_def split: option.splits)
  from while_loop_post [OF r] False assms(2) have post: "loop_post s r"
    by (simp add: AUDIO_BUFFER_SIZE_def)
  from False obtain p where guard: "g_player s = Some p" "g_opl s" "g_audioBuffer s"
    by auto
  show ?thesis
  proof (cases r)
    case (Return status s1)
    with post have st: "status = 1" by (simp add: loop_post_def)
    have "emu_compute_audio_samples lib s = Some (Return status s1)"
      using guard r Return by (simp add: emu_compute_audio_samples_def)
    with assms(1) st have "y = Return 1 s1" by simp
    with Return st r post guard show ?thesis by simp
  next
    case (Next n s1)
    with post have n: "n = AUDIO_BUFFER_SIZE" and fr: "loop_frame s s1"
      by (simp_all add: loop_post_def)
    from fr have same: "g_totalSamplesGenerated s1 = g_totalSamplesGenerated s"
      "g_sampleRate s1 = g_sampleRate s"
      by (simp_all add: loop_frame_def)
    have "emu_compute_audio_samples lib s = Some (Return 0
                (s1\<lparr>g_totalSamplesGenerated := g_totalSamplesGenerated s + 512,
                    g_currentPosition :=
                      double_to_ulong
                        (real (g_totalSamplesGenerated s + 512) / real_of_int (g_sampleRate s)
                          * 1000),
                    g_audioBufferLength := 2048\<rparr>))"
      using guard r Next n same
      by (simp add: emu_compute_audio_samples_def Let_def AUDIO_BUFFER_SIZE_def)
    with assms(1) have "y = Return 0
                (s1\<lparr>g_totalSamplesGenerated := g_totalSamplesGenerated s + 512,
                    g_currentPosition :=
                      double_to_ulong
                        (real (g_totalSamplesGenerated s + 512) / real_of_int (g_sampleRate s)
                          * 1000),
                    g_audioBufferLength := 2048\<rparr>)"
      by simp
    with Next n r post guard show ?thesis by simp
  next
    case NullDeref
    with post show ?thesis by (simp add: loop_post_def)
  qed
qed

lemma session_ok_loop_frame:
  "session_ok s \<Longrightarrow> loop_frame s s' \<Longrightarrow> 0 \<le> g_sampleAccumulator s' \<Longrightarrow> session_ok s'"
  by (simp add: session_ok_def loop_frame_def store_ok_def texts_ok_def)

lemma session_ok_compute:
  assumes "session_ok s" and "emu_compute_audio_samples lib s = Some (Return status s')"
  shows "session_ok s'"
proof -
  from assms(1) have sr: "0 < g_sampleRate s" and acc: "0 \<le> g_sampleAccumulator s"
    by (simp_all add: session_ok_def)
  from emu_compute_cases [OF assms(2) sr]
  consider "s' = s"
    | s1 where "loop_post s (Return 1 s1)" "s' = s1"
    | s1 where "loop_post s (Next AUDIO_BUFFER_SIZE s1)"
        "s' = s1\<lparr>g_totalSamplesGenerated := g_totalSamplesGenerated s + 512,
                    g_currentPosition :=
                      double_to_ulong
                        (real (g_totalSamplesGenerated s + 512) / real_of_int (g_sampleRate s)
                          * 1000),
                    g_audioBufferLength := 2048\<rparr>"
    by auto
  then show ?thesis
  proof cases
    case 1
    with assms(1) show ?thesis by simp
  next
    case 2
    with acc have "loop_frame s s'" "0 \<le> g_sampleAccumulator s'"
      by (simp_all add: loop_post_def)
    with assms(1) show ?thesis by (rule session_ok_loop_frame)
  next
    case 3
    with acc have "loop_frame s s1" "0 \<le> g_sampleAccumulator s1"
      by (simp_all add: loop_post_def)
    with assms(1) have "session_ok s1" by (rule session_ok_loop_frame)
    with 3(2) show ?thesis
      by (simp add: session_ok_def store_ok_def texts_ok_def)
  qed
qed

lemma session_ok_seek: "session_ok s \<Longrightarrow> session_ok (emu_seek_position lib ms s)"
  by (simp add: emu_seek_position_def session_ok_def store_ok_def texts_ok_def Let_def
      split: option.splits)

lemma session_ok_set_subsong: "session_ok s \<Longrightarrow> session_ok (emu_set_subsong lib subsong s)"
  by (simp add: emu_set_subsong_def session_ok_def store_ok_def texts_ok_def Let_def
      split: option.splits)

lemma session_ok_rewind: "session_ok s \<Longrightarrow> session_ok (emu_rewind lib s)"
  by (simp add: emu_rewind_def session_ok_def store_ok_def texts_ok_def Let_def
      split: option.splits)

lemma session_ok_set_loop: "session_ok s \<Longrightarrow> session_ok (emu_set_loop_enabled enabled s)"
  by (simp add: emu_set_loop_enabled_def session_ok_def store_ok_def texts_ok_def)

lemma reachable_session_ok: "s \<in> reachable lib \<Longrightarrow> session_ok s"
proof (induction rule: reachable.induct)
  case start
  show ?case by (rule session_ok_initial)
next
  case (init s sampleRate)
  then show ?case by (simp add: session_ok_init)
next
  case (teardown s)
  then show ?case by (simp add: session_ok_teardown)
next
  case (add_file s filename bytes sz)
  then show ?case by (simp add: session_ok_add_file)
next
  case (load_file s filename bytes sz)
  then show ?case by (simp add: session_ok_load_file)
next
  case (compute s status s')
  then show ?case by (simp add: session_ok_compute)
next
  case (seek_position s ms)
  then show ?case by (simp add: session_ok_seek)
next
  case (set_subsong s subsong)
  then show ?case by (simp add: session_ok_set_subsong)
next
  case (rewind s)
  then show ?case by (simp add: session_ok_rewind)
next
  case (set_loop_enabled s enabled)
  then show ?case by (simp add: session_ok_set_loop)
qed

section \<open>The accumulator is never negative\<close>




lemmas demo_eval = emu_load_file_def emu_init_def initial_state_def emu_add_file_def fresh_def
   demo_player_def CProvider_Memory_open_def stream_of_def Let_def
   loop_body_def AUDIO_BUFFER_SIZE_def getSamplesPerTick_def float_to_int_def double_to_ulong_def

lemma demo_loaded_fields:
  "g_player (demo_loaded ticks rate sampleRate) = Some 0"
  "g_opl (demo_loaded ticks rate sampleRate)"
  "g_audioBuffer (demo_loaded ticks rate sampleRate)"
  "g_sampleAccumulator (demo_loaded ticks rate sampleRate) = 0"
  "g_sampleRate (demo_loaded ticks rate sampleRate) = (if sampleRate > 0 then sampleRate else 49716)"
  "g_totalSamplesGenerated (demo_loaded ticks rate sampleRate) = 0"
  "g_currentPosition (demo_loaded ticks rate sampleRate) = 0"
  "g_currentTick (demo_loaded ticks rate sampleRate) = 0"
  by (simp_all add: demo_loaded_def demo_eval)

lemma demo_loaded_reachable: "demo_loaded ticks rate sampleRate \<in> reachable (demo_player ticks rate)"
proof -
  have "snd (emu_init sampleRate initial_state) \<in> reachable (demo_player ticks rate)"
    by (intro reachable.init reachable.start)
  then show ?thesis
    unfolding demo_loaded_def by (rule reachable.load_file)
qed

lemma demo_first_block:
  "emu_compute_audio_samples (demo_player 100 70) (demo_loaded 100 70 44100)
     = Some (Return 0 ((demo_loaded 100 70 44100)\<lparr>g_player := Some 1, g_currentTick := 1,
           g_sampleAccumulator := 118, g_totalSamplesGenerated := 512,
           g_currentPosition := 11, g_audioBufferLength := 2048\<rparr>))"
  apply (simp add: emu_compute_audio_samples_def demo_loaded_fields)
  apply (subst while_loop.simps)
  apply (simp add: demo_loaded_fields demo_eval)
  apply (subst while_loop.simps)
  apply (simp add: demo_loaded_fields demo_eval)
  apply (subst while_loop.simps)
  apply (simp add: demo_loaded_fields demo_eval)
  done

lemma demo_after_block_eq:
  "demo_after_block = (demo_loaded 100 70 44100)\<lparr>g_player := Some 1, g_currentTick := 1,
           g_sampleAccumulator := 118, g_totalSamplesGenerated := 512,
           g_currentPosition := 11, g_audioBufferLength := 2048\<rparr>"
  by (simp add: demo_after_block_def demo_first_block)



section \<open>The position after a block\<close>









section \<open>Refresh rate, rewind and seek\<close>






lemma demo_loaded_mpt_fields:
  "g_module demo_loaded_mpt = Some 0" "g_audioBuffer_mpt demo_loaded_mpt"
  "g_sampleRate_mpt demo_loaded_mpt = 48000" "g_audioBufferFrames demo_loaded_mpt = 0"
  by (simp_all add: demo_loaded_mpt_def mpt_load_file_def mpt_init_def initial_state_mpt_def
      demo_module_def Let_def)

lemma demo_played_mpt_fields:
  "g_module demo_played_mpt = Some (8 / 375)" "g_audioBuffer_mpt demo_played_mpt"
  "g_audioBufferFrames demo_played_mpt = 1024"
  by (simp_all add: demo_played_mpt_def mpt_compute_audio_samples_def demo_loaded_mpt_fields
      demo_module_def AUDIO_BUFFER_FRAMES_def Let_def)

lemma demo_refused_mpt_fields:
  "fst (mpt_load_file demo_module (Some ''bad.mod'') (Some [0]) 1 demo_played_mpt) = - 1"
  "g_module demo_refused_mpt = None" "g_audioBufferFrames demo_refused_mpt = 1024"
  by (simp_all add: demo_refused_mpt_def mpt_load_file_def demo_module_def Let_def
      demo_played_mpt_fields)




section \<open>Registering a name again\<close>

lemma one_entry_per_key:
  "distinct (map fst m) \<Longrightarrow> (k, v) \<in> set m \<Longrightarrow> length (filter (\<lambda>pair. fst pair = k) m) = 1"
proof (induction m)
  case Nil
  then show ?case by simp
next
  case (Cons pair m)
  show ?case
  proof (cases "fst pair = k")
    case True
    with Cons.prems have "k \<notin> fst ` set m" by auto
    then have "filter (\<lambda>pair. fst pair = k) m = []"
      by (auto simp: filter_empty_conv)
    with True show ?thesis by simp
  next
    case False
    with Cons.prems have "(k, v) \<in> set m" "distinct (map fst m)" by auto
    with Cons.IH False show ?thesis by simp
  qed
qed

lemma sorted_keys_distinct:
  fixes m :: "('k :: linorder \<times> 'v) list"
  shows "sorted_wrt (<) (map fst m) \<Longrightarrow> distinct (map fst m)"
  by (simp add: strict_sorted_iff)

lemma open_exact:
  "map_find files name = Some fd \<Longrightarrow> CProvider_Memory_open files m name = Some (stream_of m fd)"
  by (simp add: CProvider_Memory_open_def Let_def)

text \<open>
  Claim C7. When \<open>name\<close> is registered and \<^verbatim>\<open>emu_add_file\<close> is called with it again, the
  call succeeds; the buffer of the old entry is released and one buffer, not live
  before, is allocated and holds the first \<open>size\<close> bytes given; the store has exactly
  one entry under \<open>name\<close>, its keys are strictly increasing, every other name resolves as
  before, the live buffers are exactly those the entries point to, and opening \<open>name\<close>
  yields the new bytes.
\<close>

theorem reregister_replaces:
  assumes "s \<in> reachable lib"
    and "map_find (g_files s) name = Some old"
    and "0 < sz"
  shows "fst (emu_add_file (Some name) (Some buf) sz s) = 0
    \<and> (\<exists>new. map_find (g_files (snd (emu_add_file (Some name) (Some buf) sz s))) name = Some new
          \<and> size_fd new = nat sz
          \<and> data new \<notin> set (live s) - {data old}
          \<and> set (live (snd (emu_add_file (Some name) (Some buf) sz s)))
              = insert (data new) (set (live s) - {data old})
          \<and> mem (snd (emu_add_file (Some name) (Some buf) sz s)) (data new) = take (nat sz) buf)
    \<and> length (filter (\<lambda>pair. fst pair = name)
                (g_files (snd (emu_add_file (Some name) (Some buf) sz s)))) = 1
    \<and> sorted_wrt (<) (map fst (g_files (snd (emu_add_file (Some name) (Some buf) sz s))))
    \<and> (\<forall>k. k \<noteq> name \<longrightarrow>
          map_find (g_files (snd (emu_add_file (Some name) (Some buf) sz s))) k
            = map_find (g_files s) k)
    \<and> set (live (snd (emu_add_file (Some name) (Some buf) sz s)))
        = ptr ` set (g_files (snd (emu_add_file (Some name) (Some buf) sz s)))
    \<and> CProvider_Memory_open (g_files (snd (emu_add_file (Some name) (Some buf) sz s)))
          (mem (snd (emu_add_file (Some name) (Some buf) sz s))) name
        = Some (take (nat sz) buf)"
proof -
  let ?s' = "snd (emu_add_file (Some name) (Some buf) sz s)"
  let ?live1 = "delete_buf (data old) (live s)"
  let ?a = "fresh ?live1"
  let ?new = "\<lparr>data = ?a, size_fd = nat sz\<rparr>"
  from reachable_session_ok [OF assms(1)] have ok: "store_ok s"
    by (simp add: session_ok_def)
  have rel: "released (g_files s) name (live s) = ?live1"
    using assms(2) by (simp add: released_def)
  have eq: "emu_add_file (Some name) (Some buf) sz s =
     (0, s\<lparr>live := ?a # ?live1, mem := (mem s)(?a := take (nat sz) buf),
           g_files := map_assign (map_erase (g_files s) name) name ?new\<rparr>)"
    using emu_add_file_eq [OF assms(3), of name buf s] by (simp only: rel)
  have files: "g_files ?s' = map_assign (map_erase (g_files s) name) name ?new"
    and live: "live ?s' = ?a # ?live1"
    and mem: "mem ?s' = (mem s)(?a := take (nat sz) buf)"
    by (simp_all add: eq)
  have found: "map_find (g_files ?s') name = Some ?new"
    by (simp add: files map_find_assign)
  have ok': "store_ok ?s'"
    using ok by (rule store_ok_add_file)
  then have sorted': "sorted_wrt (<) (map fst (g_files ?s'))"
    and leak: "set (live ?s') = ptr ` set (g_files ?s')"
    by (simp_all add: store_ok_def)
  have one: "length (filter (\<lambda>pair. fst pair = name) (g_files ?s')) = 1"
    using sorted_keys_distinct [OF sorted'] map_find_Some_mem [OF found]
    by (rule one_entry_per_key)
  have others: "\<forall>k. k \<noteq> name \<longrightarrow> map_find (g_files ?s') k = map_find (g_files s) k"
    by (simp add: files map_find_assign map_find_erase_other)
  have fresh: "?a \<notin> set (live s) - {data old}"
    using fresh_not_live [of ?live1] by (simp add: set_delete_buf)
  have lives: "set (live ?s') = insert ?a (set (live s) - {data old})"
    by (simp add: live set_delete_buf)
  have opened: "CProvider_Memory_open (g_files ?s') (mem ?s') name = Some (take (nat sz) buf)"
    using open_exact [OF found, of "mem ?s'"] by (simp add: stream_of_def mem)
  have "\<exists>new. map_find (g_files ?s') name = Some new
          \<and> size_fd new = nat sz
          \<and> data new \<notin> set (live s) - {data old}
          \<and> set (live ?s') = insert (data new) (set (live s) - {data old})
          \<and> mem ?s' (data new) = take (nat sz) buf"
    using found fresh lives by (intro exI [of _ ?new]) (simp add: mem)
  with one sorted' others leak opened show ?thesis
    by (simp add: eq)
qed

lemma demo_registered_fields:
  "g_files demo_registered = [(''a.bnk'', \<lparr>data = 1, size_fd = 2\<rparr>)]"
  "live demo_registered = [1]"
  "mem demo_registered (Suc 0) = [1, 2]"
  by (simp_all add: demo_registered_def emu_add_file_def initial_state_def fresh_def Let_def)

text \<open>Registering \<open>a.bnk\<close> a second time, with three bytes of which two are to be taken:
  the store opens \<open>a.bnk\<close> to the new two bytes.\<close>

theorem reregister_replaces_witness:
  "demo_registered \<in> reachable (demo_player 1 70)
   \<and> map_find (g_files demo_registered) ''a.bnk'' = Some \<lparr>data = 1, size_fd = 2\<rparr>
   \<and> CProvider_Memory_open (g_files demo_registered) (mem demo_registered) ''a.bnk'' = Some [1, 2]
   \<and> CProvider_Memory_open
        (g_files (snd (emu_add_file (Some ''a.bnk'') (Some [7, 8, 9]) 2 demo_registered)))
        (mem (snd (emu_add_file (Some ''a.bnk'') (Some [7, 8, 9]) 2 demo_registered))) ''a.bnk''
      = Some [7, 8]
   \<and> length (g_files (snd (emu_add_file (Some ''a.bnk'') (Some [7, 8, 9]) 2 demo_registered))) = 1"
proof -
  have r: "demo_registered \<in> reachable (demo_player 1 70)"
    unfolding demo_registered_def by (intro reachable.add_file reachable.start)
  have f: "map_find (g_files demo_registered) ''a.bnk'' = Some \<lparr>data = 1, size_fd = 2\<rparr>"
    by (simp add: demo_registered_fields)
  have z: "(0 :: int) < 2" by simp
  from reregister_replaces [OF r f z, of "[7, 8, 9]"]
  have "CProvider_Memory_open
        (g_files (snd (emu_add_file (Some ''a.bnk'') (Some [7, 8, 9]) 2 demo_registered)))
        (mem (snd (emu_add_file (Some ''a.bnk'') (Some [7, 8, 9]) 2 demo_registered))) ''a.bnk''
      = Some (take (nat 2) [7, 8, 9])"
    by blast
  moreover have "CProvider_Memory_open (g_files demo_registered) (mem demo_registered) ''a.bnk''
      = Some [1, 2]"
    by (simp add: CProvider_Memory_open_def demo_registered_fields stream_of_def Let_def)
  moreover have "length (g_files (snd (emu_add_file (Some ''a.bnk'') (Some [7, 8, 9]) 2 demo_registered))) = 1"
    by (simp add: emu_add_file_def demo_registered_fields Let_def)
  ultimately show ?thesis
    using r f by simp
qed

section \<open>Computing without a track\<close>

lemma mpt_load_file_invalid:
  "bytes = None \<or> sz \<le> 0 \<Longrightarrow> mpt_load_file mlib filename bytes sz t = (- 1, t)"
  by (auto simp: mpt_load_file_def split: option.splits)

lemma mpt_load_file_failed:
  assumes "0 < sz" and "fst (mpt_load_file mlib filename (Some buf) sz t) = - 1"
  shows "snd (mpt_load_file mlib filename (Some buf) sz t) = t\<lparr>g_module := None\<rparr>"
  using assms
  by (cases "module_create_from_memory2 mlib (take (nat sz) buf)")
     (simp_all add: mpt_load_file_def Let_def)

lemma emu_load_file_failed:
  assumes "g_opl s" and "0 < sz" and "fst (emu_load_file lib (Some name) (Some buf) sz s) = - 1"
  shows "snd (emu_load_file lib (Some name) (Some buf) sz s)
      = (before_factory name buf sz s)\<lparr>g_player := None\<rparr>"
  using assms(3) unfolding emu_load_file_eq [OF assms(1,2)]
  by (cases "made_player lib name buf sz s") simp_all

lemma emu_compute_no_fault:
  assumes "s \<in> reachable lib"
  shows "emu_compute_audio_samples lib s \<noteq> Some NullDeref"
    and "emu_compute_audio_samples lib s \<noteq> Some (Next n s')"
proof -
  from reachable_session_ok [OF assms] have sr: "0 < g_sampleRate s"
    by (simp add: session_ok_def)
  show "emu_compute_audio_samples lib s \<noteq> Some NullDeref"
    using emu_compute_cases [OF _ sr, of lib NullDeref] by auto
  show "emu_compute_audio_samples lib s \<noteq> Some (Next n s')"
    using emu_compute_cases [OF _ sr, of lib "Next n s'"] by auto
qed

text \<open>
  Claim C5, as stated, fails: a load that is refused for its arguments leaves the player
  of the prior load in place, and the next compute call plays on. Here a load with size 0
  returns -1 and changes nothing, and the compute call after it returns 0. And on the
  frame-pull surface the compute call without a module does change the state: after a
  block of 1024 frames and a load the library refuses, it sets the count of valid frames
  to 0.
\<close>

theorem failed_load_counterexample:
  "g_player (demo_loaded 100 70 44100) = Some 0
   \<and> emu_load_file (demo_player 100 70) (Some ''song.d00'') (Some [1, 2, 3]) 0
        (demo_loaded 100 70 44100)
      = (- 1, demo_loaded 100 70 44100)
   \<and> emu_compute_audio_samples (demo_player 100 70) (demo_loaded 100 70 44100)
      = Some (Return 0 demo_after_block)
   \<and> fst (mpt_load_file demo_module (Some ''bad.mod'') (Some [0]) 1 demo_played_mpt) = - 1
   \<and> g_module demo_refused_mpt = None
   \<and> g_audioBufferFrames demo_refused_mpt = 1024
   \<and> fst (mpt_compute_audio_samples demo_module demo_refused_mpt) = 1
   \<and> g_audioBufferFrames (snd (mpt_compute_audio_samples demo_module demo_refused_mpt)) = 0
   \<and> snd (mpt_compute_audio_samples demo_module demo_refused_mpt) \<noteq> demo_refused_mpt"
proof -
  have "g_audioBufferFrames (snd (mpt_compute_audio_samples demo_module demo_refused_mpt)) = 0"
    and one: "fst (mpt_compute_audio_samples demo_module demo_refused_mpt) = 1"
    by (simp_all add: mpt_compute_audio_samples_def demo_refused_mpt_fields)
  moreover from this have "snd (mpt_compute_audio_samples demo_module demo_refused_mpt)
      \<noteq> demo_refused_mpt"
    using demo_refused_mpt_fields(3) by auto
  ultimately show ?thesis
    using demo_first_block
    by (simp add: demo_loaded_fields emu_load_file_invalid demo_after_block_eq
        demo_refused_mpt_fields)
qed

text \<open>
  Claim C5, amended. When no track is loaded (the player or module pointer is null), or
  the engine or the buffer is missing, a compute call returns 1: on the tick surface with
  no change of state, on the frame-pull surface with the count of valid frames set to 0
  and nothing else changed. That is the case in the initial state, after a teardown, and
  after a load that got past the check of its arguments and failed, which leaves the
  prior player or module destroyed. In a reachable state the tick surface never
  dereferences a null player.
\<close>

theorem no_track_reports_ended:
  "((g_player s = None \<or> \<not> g_opl s \<or> \<not> g_audioBuffer s) \<longrightarrow>
       emu_compute_audio_samples lib s = Some (Return 1 s))
   \<and> ((g_module t = None \<or> \<not> g_audioBuffer_mpt t) \<longrightarrow>
       mpt_compute_audio_samples mlib t = (1, t\<lparr>g_audioBufferFrames := 0\<rparr>))
   \<and> emu_compute_audio_samples lib initial_state = Some (Return 1 initial_state)
   \<and> mpt_compute_audio_samples mlib initial_state_mpt = (1, initial_state_mpt)
   \<and> emu_compute_audio_samples lib (emu_teardown s) = Some (Return 1 (emu_teardown s))
   \<and> fst (mpt_compute_audio_samples mlib (mpt_teardown t)) = 1
   \<and> emu_compute_audio_samples lib (snd (emu_init sampleRate s))
       = Some (Return 1 (snd (emu_init sampleRate s)))
   \<and> (g_opl s \<and> 0 < sz \<and> fst (emu_load_file lib (Some name) (Some buf) sz s) = - 1 \<longrightarrow>
        g_player (snd (emu_load_file lib (Some name) (Some buf) sz s)) = None
        \<and> emu_compute_audio_samples lib (snd (emu_load_file lib (Some name) (Some buf) sz s))
            = Some (Return 1 (snd (emu_load_file lib (Some name) (Some buf) sz s))))
   \<and> (0 < sz \<and> fst (mpt_load_file mlib filename (Some buf) sz t) = - 1 \<longrightarrow>
        g_module (snd (mpt_load_file mlib filename (Some buf) sz t)) = None
        \<and> fst (mpt_compute_audio_samples mlib (snd (mpt_load_file mlib filename (Some buf) sz t)))
            = 1)
   \<and> (s \<in> reachable lib \<longrightarrow> emu_compute_audio_samples lib s \<noteq> Some NullDeref)"
proof -
  have a: "(g_player s = None \<or> \<not> g_opl s \<or> \<not> g_audioBuffer s) \<longrightarrow>
       emu_compute_audio_samples lib s = Some (Return 1 s)" for s :: "'a emu_state"
    by (auto simp: emu_compute_no_track)
  have b: "(g_module t = None \<or> \<not> g_audioBuffer_mpt t) \<longrightarrow>
       mpt_compute_audio_samples mlib t = (1, t\<lparr>g_audioBufferFrames := 0\<rparr>)" for t :: "'b mpt_state"
    by (auto simp: mpt_compute_audio_samples_def split: option.splits)
  have c: "emu_compute_audio_samples lib initial_state = Some (Return 1 initial_state)"
    by (rule emu_compute_no_track) (simp add: initial_state_def)
  have d: "mpt_compute_audio_samples mlib initial_state_mpt = (1, initial_state_mpt)"
    by (simp add: mpt_compute_audio_samples_def initial_state_mpt_def)
  have e: "emu_compute_audio_samples lib (emu_teardown s) = Some (Return 1 (emu_teardown s))"
    by (rule emu_compute_no_track) (simp add: emu_teardown_def Let_def)
  have f: "fst (mpt_compute_audio_samples mlib (mpt_teardown t)) = 1"
    by (simp add: mpt_compute_audio_samples_def mpt_teardown_def Let_def)
  have g: "emu_compute_audio_samples lib (snd (emu_init sampleRate s))
       = Some (Return 1 (snd (emu_init sampleRate s)))"
    by (rule emu_compute_no_track) (simp add: emu_init_def Let_def)
  have h: "g_player (snd (emu_load_file lib (Some name) (Some buf) sz s)) = None
        \<and> emu_compute_audio_samples lib (snd (emu_load_file lib (Some name) (Some buf) sz s))
            = Some (Return 1 (snd (emu_load_file lib (Some name) (Some buf) sz s)))"
    if "g_opl s" "0 < sz" "fst (emu_load_file lib (Some name) (Some buf) sz s) = - 1"
  proof -
    from emu_load_file_failed [OF that]
    have "g_player (snd (emu_load_file lib (Some name) (Some buf) sz s)) = None"
      by simp
    then show ?thesis by (simp add: emu_compute_no_track)
  qed
  have i: "g_module (snd (mpt_load_file mlib filename (Some buf) sz t)) = None
        \<and> fst (mpt_compute_audio_samples mlib (snd (mpt_load_file mlib filename (Some buf) sz t)))
            = 1"
    if "0 < sz" "fst (mpt_load_file mlib filename (Some buf) sz t) = - 1"
    using mpt_load_file_failed [OF that] by (simp add: mpt_compute_audio_samples_def)
  have j: "s \<in> reachable lib \<longrightarrow> emu_compute_audio_samples lib s \<noteq> Some NullDeref"
    by (simp add: emu_compute_no_fault)
  from a [of s] b [of t] c d e f g h i j show ?thesis
    by blast
qed

theorem no_track_reports_ended_witness:
  "g_opl (demo_loaded 100 70 44100)
   \<and> g_player (demo_loaded 100 70 44100) = Some 0
   \<and> fst (emu_load_file (demo_player 100 70) (Some ''bad.d00'') (Some [0]) 1
            (demo_loaded 100 70 44100)) = - 1
   \<and> g_player demo_refused = None
   \<and> emu_compute_audio_samples (demo_player 100 70) demo_refused = Some (Return 1 demo_refused)"
proof -
  have o: "g_opl (demo_loaded 100 70 44100)"
    and p: "g_player (demo_loaded 100 70 44100) = Some 0"
    by (simp_all add: demo_loaded_fields)
  have m: "made_player (demo_player 100 70) ''bad.d00'' [0] 1 (demo_loaded 100 70 44100) = None"
    by (simp add: made_player_def before_factory_def emu_add_file_eq demo_player_def
        CProvider_Memory_open_def map_find_assign stream_of_def Let_def)
  have z: "(0 :: int) < 1" by simp
  have f: "fst (emu_load_file (demo_player 100 70) (Some ''bad.d00'') (Some [0]) 1
            (demo_loaded 100 70 44100)) = - 1"
    by (simp add: emu_load_file_eq [OF o z] m)
  from no_track_reports_ended [where s = "demo_loaded 100 70 44100"
      and lib = "demo_player 100 70" and sz = 1 and name = "''bad.d00''" and buf = "[0]"] o z f
  have "g_player demo_refused = None
      \<and> emu_compute_audio_samples (demo_player 100 70) demo_refused = Some (Return 1 demo_refused)"
    unfolding demo_refused_def by blast
  with o p f show ?thesis by simp
qed

section \<open>Invalid arguments\<close>

text \<open>
  Claim C6, as stated, fails on the frame-pull surface for the file name:
  \<^verbatim>\<open>mpt_load_file\<close> never looks at it. Called with a null file name and good data in a
  session that is playing a module at 8/375 s, it returns 0 and the module is replaced.
\<close>

theorem null_filename_counterexample:
  "g_module demo_played_mpt = Some (8 / 375)
   \<and> fst (mpt_load_file demo_module None (Some [1, 2, 3]) 3 demo_played_mpt) = 0
   \<and> g_module (snd (mpt_load_file demo_module None (Some [1, 2, 3]) 3 demo_played_mpt)) = Some 0
   \<and> snd (mpt_load_file demo_module None (Some [1, 2, 3]) 3 demo_played_mpt) \<noteq> demo_played_mpt"
proof -
  have a: "g_module demo_played_mpt = Some (8 / 375)"
    by (rule demo_played_mpt_fields)
  have b: "fst (mpt_load_file demo_module None (Some [1, 2, 3]) 3 demo_played_mpt) = 0"
    and c: "g_module (snd (mpt_load_file demo_module None (Some [1, 2, 3]) 3 demo_played_mpt))
        = Some 0"
    by (simp_all add: mpt_load_file_def demo_module_def Let_def)
  from a c have "snd (mpt_load_file demo_module None (Some [1, 2, 3]) 3 demo_played_mpt)
      \<noteq> demo_played_mpt"
    by auto
  with a b c show ?thesis by simp
qed

text \<open>
  Claim C6, amended. \<^verbatim>\<open>emu_add_file\<close> and \<^verbatim>\<open>emu_load_file\<close> called with a null file name, a
  null data pointer or a size that is not positive, and \<^verbatim>\<open>mpt_load_file\<close> called with a
  null data pointer or a size that is not positive, return -1 and leave every global as
  it was.
\<close>

theorem invalid_arguments_rejected:
  "((filename = None \<or> bytes = None \<or> sz \<le> 0) \<longrightarrow>
       emu_add_file filename bytes sz s = (- 1, s)
       \<and> emu_load_file lib filename bytes sz s = (- 1, s))
   \<and> ((bytes = None \<or> sz \<le> 0) \<longrightarrow> mpt_load_file mlib filename bytes sz t = (- 1, t))"
  by (simp add: emu_add_file_invalid emu_load_file_invalid mpt_load_file_invalid)

text \<open>Each of the three functions with the size 0, in a session with a track.\<close>

theorem invalid_arguments_rejected_witness:
  "emu_add_file (Some ''a.bnk'') (Some [1]) 0 (demo_loaded 100 70 44100)
     = (- 1, demo_loaded 100 70 44100)
   \<and> emu_load_file (demo_player 100 70) (Some ''a.bnk'') (Some [1]) 0 (demo_loaded 100 70 44100)
     = (- 1, demo_loaded 100 70 44100)
   \<and> mpt_load_file demo_module (Some ''a.bnk'') (Some [1]) 0 demo_played_mpt
     = (- 1, demo_played_mpt)
   \<and> emu_load_file (demo_player 100 70) None (Some [1]) 1 (demo_loaded 100 70 44100)
     = (- 1, demo_loaded 100 70 44100)"
  using invalid_arguments_rejected [of "Some ''a.bnk''" "Some [1]" 0 "demo_loaded 100 70 44100"
      "demo_player 100 70" demo_module demo_played_mpt]
    invalid_arguments_rejected [of None "Some [1]" 1 "demo_loaded 100 70 44100"
      "demo_player 100 70" demo_module demo_played_mpt]
  by simp

section \<open>Track metadata\<close>

lemma c_str_no_NUL: "NUL \<notin> set (c_str xs)"
  unfolding c_str_def by (induction xs) auto

lemma c_str_append_NUL: "NUL \<notin> set xs \<Longrightarrow> c_str (xs @ NUL # ys) = xs"
  unfolding c_str_def by (induction xs) auto

lemma c_str_NUL: "c_str (NUL # ys) = []"
  by (simp add: c_str_def)

text \<open>A \<^verbatim>\<open>strncpy\<close> of \<open>n\<close> characters into an array of \<open>n + 1\<close> whose last one is NUL
  leaves the C string cut to \<open>n\<close> characters.\<close>

lemma c_str_strncpy:
  assumes "text_ok (Suc n) dst"
  shows "c_str (strncpy dst src n) = take n (c_str src)"
proof -
  from assms have len: "length dst = Suc n" and last: "dst ! n = NUL"
    by (simp_all add: text_ok_def)
  then have tail: "drop n dst = [NUL]"
    by (metis Cons_nth_drop_Suc drop_all lessI order_refl)
  show ?thesis
  proof (cases "length (c_str src) < n")
    case True
    then obtain k where k: "n - length (c_str src) = Suc k"
      by (cases "n - length (c_str src)") auto
    have "take n (c_str src @ replicate n NUL)
        = c_str src @ NUL # replicate k NUL"
      using True k by simp
    then have "strncpy dst src n = c_str src @ NUL # (replicate k NUL @ drop n dst)"
      by (simp add: strncpy_def)
    then have "c_str (strncpy dst src n) = c_str src"
      by (simp only: c_str_append_NUL [OF c_str_no_NUL])
    with True show ?thesis by simp
  next
    case False
    then have "take n (c_str src @ replicate n NUL) = take n (c_str src)"
      by simp
    then have "strncpy dst src n = take n (c_str src) @ NUL # []"
      by (simp add: strncpy_def tail)
    moreover have "NUL \<notin> set (take n (c_str src))"
      using c_str_no_NUL [of src] by (auto dest: in_set_takeD)
    ultimately show ?thesis
      by (simp add: c_str_append_NUL)
  qed
qed

lemma c_str_store_text:
  assumes "length arr = 256"
  shows "c_str (store_text arr str) = (case str of Some x \<Rightarrow> take 255 (c_str x) | None \<Rightarrow> [])"
    and "length (store_text arr str) = 256"
proof -
  show "length (store_text arr str) = 256"
    using assms by (simp add: store_text_def strncpy_length split: option.splits)
  show "c_str (store_text arr str) = (case str of Some x \<Rightarrow> take 255 (c_str x) | None \<Rightarrow> [])"
  proof (cases str)
    case None
    from assms obtain c cs where "arr = c # cs" by (cases arr) auto
    with None show ?thesis by (simp add: store_text_def c_str_NUL)
  next
    case (Some x)
    have ok: "text_ok (Suc 255) ((strncpy arr x 255)[255 := NUL])"
      using assms by (simp add: text_ok_def strncpy_length)
    have "strncpy ((strncpy arr x 255)[255 := NUL]) x 255 = (strncpy arr x 255)[255 := NUL]"
      using assms by (simp add: strncpy_def drop_update_swap list_update_append)
    with c_str_strncpy [OF ok, of x] Some show ?thesis
      by (simp add: store_text_def)
  qed
qed

lemma texts_ok_mpt_initial: "texts_ok_mpt initial_state_mpt"
  by (simp add: texts_ok_mpt_def initial_state_mpt_def)

lemma snprintf_length:
  assumes "length arr = n" and "0 < n"
  shows "length (snprintf arr n str) = n"
proof -
  have "length (take (n - 1) str) \<le> n - 1" by simp
  with assms show ?thesis
    by (simp add: snprintf_def Let_def)
qed

lemma reachable_mpt_texts_ok: "t \<in> reachable_mpt mlib \<Longrightarrow> texts_ok_mpt t"
proof (induction rule: reachable_mpt.induct)
  case start_mpt
  show ?case by (rule texts_ok_mpt_initial)
next
  case (init_mpt s malloc_ok sampleRate)
  then show ?case by (simp add: texts_ok_mpt_def mpt_init_def Let_def)
next
  case (teardown_mpt s)
  then show ?case by (simp add: texts_ok_mpt_def mpt_teardown_def Let_def)
next
  case (load_file_mpt s filename bytes sz)
  then show ?case
    by (simp add: texts_ok_mpt_def mpt_load_file_def Let_def c_str_store_text
        split: option.splits)
next
  case (compute_mpt s)
  then show ?case
    by (simp add: texts_ok_mpt_def mpt_compute_audio_samples_def Let_def
        split: option.splits prod.splits)
next
  case (set_position_mpt s seconds)
  then show ?case
    by (simp add: texts_ok_mpt_def mpt_set_position_seconds_def split: option.splits)
next
  case (get_track_info_mpt s)
  then show ?case
    by (simp add: texts_ok_mpt_def mpt_get_track_info_def Let_def snprintf_length)
next
  case (set_repeat_count_mpt s count)
  then show ?case
    by (simp add: texts_ok_mpt_def mpt_set_repeat_count_def Let_def split: option.splits)
next
  case (rewind_mpt s)
  then show ?case
    by (simp add: texts_ok_mpt_def mpt_rewind_def split: option.splits)
qed

text \<open>The text fields across the tick backend's load, teardown and init.\<close>

lemma emu_load_file_texts:
  assumes "texts_ok s"
  shows "fst (emu_load_file lib filename bytes sz s) = 0 \<longrightarrow>
      (\<exists>p. g_player (snd (emu_load_file lib filename bytes sz s)) = Some p
         \<and> emu_texts (snd (emu_load_file lib filename bytes sz s))
             = (take 255 (c_str (gettitle lib p)), take 255 (c_str (getauthor lib p)),
                take 255 (c_str (gettype lib p)), take 1023 (c_str (getdesc lib p))))"
    and "fst (emu_load_file lib filename bytes sz s) \<noteq> 0 \<longrightarrow>
      emu_texts (snd (emu_load_file lib filename bytes sz s)) = emu_texts s"
proof -
  from assms have ok: "text_ok (Suc 255) (g_title s)" "text_ok (Suc 255) (g_author s)"
    "text_ok (Suc 255) (g_type s)" "text_ok (Suc 1023) (g_desc s)"
    by (simp_all add: texts_ok_def)
  show "fst (emu_load_file lib filename bytes sz s) = 0 \<longrightarrow>
      (\<exists>p. g_player (snd (emu_load_file lib filename bytes sz s)) = Some p
         \<and> emu_texts (snd (emu_load_file lib filename bytes sz s))
             = (take 255 (c_str (gettitle lib p)), take 255 (c_str (getauthor lib p)),
                take 255 (c_str (gettype lib p)), take 1023 (c_str (getdesc lib p))))"
  proof (cases "\<not> g_opl s \<or> filename = None \<or> bytes = None \<or> sz \<le> 0")
    case True
    then show ?thesis by (simp add: emu_load_file_invalid)
  next
    case False
    then obtain name buf where args: "filename = Some name" "bytes = Some buf" "0 < sz" "g_opl s"
      by auto
    show ?thesis
      unfolding args emu_load_file_eq [OF args(4,3)]
      by (cases "made_player lib name buf sz s")
         (simp_all add: emu_texts_def c_str_strncpy [OF ok(1)] c_str_strncpy [OF ok(2)]
            c_str_strncpy [OF ok(3)] c_str_strncpy [OF ok(4)])
  qed
  show "fst (emu_load_file lib filename bytes sz s) \<noteq> 0 \<longrightarrow>
      emu_texts (snd (emu_load_file lib filename bytes sz s)) = emu_texts s"
  proof (cases "\<not> g_opl s \<or> filename = None \<or> bytes = None \<or> sz \<le> 0")
    case True
    then show ?thesis by (simp add: emu_load_file_invalid)
  next
    case False
    then obtain name buf where args: "filename = Some name" "bytes = Some buf" "0 < sz" "g_opl s"
      by auto
    show ?thesis
      unfolding args emu_load_file_eq [OF args(4,3)]
      by (cases "made_player lib name buf sz s")
         (simp_all add: emu_texts_def before_factory_fields)
  qed
qed

lemma emu_teardown_texts: "emu_texts (emu_teardown s) = emu_texts s"
  by (simp add: emu_texts_def emu_teardown_def Let_def)

lemma emu_init_texts: "emu_texts (snd (emu_init sampleRate s)) = emu_texts s"
  by (simp add: emu_texts_def emu_init_def Let_def)

text \<open>The same for the frame-pull backend.\<close>

lemma mpt_load_file_texts:
  assumes "texts_ok_mpt t"
  shows "fst (mpt_load_file mlib filename bytes sz t) = 0 \<longrightarrow>
      (\<exists>m. g_module (snd (mpt_load_file mlib filename bytes sz t)) = Some m
         \<and> mpt_texts (snd (mpt_load_file mlib filename bytes sz t))
             = (case module_get_metadata mlib m ''title'' of
                  Some x \<Rightarrow> take 255 (c_str x) | None \<Rightarrow> [],
                case module_get_metadata mlib m ''artist'' of
                  Some x \<Rightarrow> take 255 (c_str x) | None \<Rightarrow> [],
                case module_get_metadata mlib m ''type_long'' of
                  Some x \<Rightarrow> take 255 (c_str x) | None \<Rightarrow> []))"
    and "fst (mpt_load_file mlib filename bytes sz t) \<noteq> 0 \<longrightarrow>
      mpt_texts (snd (mpt_load_file mlib filename bytes sz t)) = mpt_texts t"
proof -
  from assms have len: "length (g_title_mpt t) = 256" "length (g_artist t) = 256"
    "length (g_type_mpt t) = 256"
    by (simp_all add: texts_ok_mpt_def)
  show "fst (mpt_load_file mlib filename bytes sz t) = 0 \<longrightarrow>
      (\<exists>m. g_module (snd (mpt_load_file mlib filename bytes sz t)) = Some m
         \<and> mpt_texts (snd (mpt_load_file mlib filename bytes sz t))
             = (case module_get_metadata mlib m ''title'' of
                  Some x \<Rightarrow> take 255 (c_str x) | None \<Rightarrow> [],
                case module_get_metadata mlib m ''artist'' of
                  Some x \<Rightarrow> take 255 (c_str x) | None \<Rightarrow> [],
                case module_get_metadata mlib m ''type_long'' of
                  Some x \<Rightarrow> take 255 (c_str x) | None \<Rightarrow> []))"
  proof (cases "bytes = None \<or> sz \<le> 0")
    case True
    then show ?thesis by (simp add: mpt_load_file_invalid)
  next
    case False
    then obtain buf where args: "bytes = Some buf" "0 < sz" by auto
    show ?thesis
      unfolding args using args(2)
      by (cases "module_create_from_memory2 mlib (take (nat sz) buf)")
         (simp_all add: mpt_load_file_def Let_def mpt_texts_def
            c_str_store_text(1) [OF len(1)] c_str_store_text(1) [OF len(2)]
            c_str_store_text(1) [OF len(3)])
  qed
  show "fst (mpt_load_file mlib filename bytes sz t) \<noteq> 0 \<longrightarrow>
      mpt_texts (snd (mpt_load_file mlib filename bytes sz t)) = mpt_texts t"
  proof (cases "bytes = None \<or> sz \<le> 0")
    case True
    then show ?thesis by (simp add: mpt_load_file_invalid)
  next
    case False
    then obtain buf where args: "bytes = Some buf" "0 < sz" by auto
    show ?thesis
      unfolding args using args(2)
      by (cases "module_create_from_memory2 mlib (take (nat sz) buf)")
         (simp_all add: mpt_load_file_def Let_def mpt_texts_def)
  qed
qed

lemma mpt_teardown_texts: "mpt_texts (mpt_teardown t) = mpt_texts t"
  by (simp add: mpt_texts_def mpt_teardown_def Let_def)

lemma mpt_init_texts:
  assumes "texts_ok_mpt t"
  shows "mpt_texts (snd (mpt_init True sampleRate t)) = ([], [], [])"
    and "mpt_texts (snd (mpt_init False sampleRate t)) = mpt_texts t"
proof -
  from assms obtain a as b bs c cs where "g_title_mpt t = a # as" "g_artist t = b # bs"
    "g_type_mpt t = c # cs"
    unfolding texts_ok_mpt_def
    by (cases "g_title_mpt t"; cases "g_artist t"; cases "g_type_mpt t") auto
  then show "mpt_texts (snd (mpt_init True sampleRate t)) = ([], [], [])"
    by (simp add: mpt_texts_def mpt_init_def Let_def c_str_NUL)
  show "mpt_texts (snd (mpt_init False sampleRate t)) = mpt_texts t"
    by (simp add: mpt_texts_def mpt_init_def Let_def)
qed

lemma demo_loaded_texts:
  "emu_texts (demo_loaded ticks rate sampleRate) = (''Title'', ''Author'', ''Demo'', [])"
proof -
  let ?i = "snd (emu_init sampleRate initial_state) :: nat emu_state"
  have "?i \<in> reachable (demo_player ticks rate)"
    by (intro reachable.init reachable.start)
  then have ok: "texts_ok ?i"
    using reachable_session_ok by (auto simp: session_ok_def)
  have "fst (emu_load_file (demo_player ticks rate) (Some ''song.d00'') (Some [1, 2, 3]) 3 ?i) = 0"
    by (simp add: demo_eval)
  with emu_load_file_texts(1) [OF ok, of "demo_player ticks rate" "Some ''song.d00''"
      "Some [1, 2, 3]" 3]
  show ?thesis
    unfolding demo_loaded_def
    by (auto simp: demo_player_def c_str_def NUL_def)
qed

lemma demo_refused_fails:
  "fst (emu_load_file (demo_player 100 70) (Some ''bad.d00'') (Some [0]) 1
          (demo_loaded 100 70 44100)) = - 1"
proof -
  have m: "made_player (demo_player 100 70) ''bad.d00'' [0] 1 (demo_loaded 100 70 44100) = None"
    by (simp add: made_player_def before_factory_def emu_add_file_eq demo_player_def
        CProvider_Memory_open_def map_find_assign stream_of_def Let_def)
  show ?thesis
    by (simp add: emu_load_file_eq demo_loaded_fields m)
qed

lemma demo_played_mpt_texts: "mpt_texts demo_played_mpt = (''Title'', [], ''Demo'')"
proof -
  let ?i = "snd (mpt_init True 48000 initial_state_mpt) :: real mpt_state"
  have "?i \<in> reachable_mpt demo_module"
    by (intro reachable_mpt.init_mpt reachable_mpt.start_mpt)
  then have ok: "texts_ok_mpt ?i" by (rule reachable_mpt_texts_ok)
  have "fst (mpt_load_file demo_module (Some ''song.mod'') (Some [1, 2, 3]) 3 ?i) = 0"
    by (simp add: mpt_load_file_def demo_module_def Let_def)
  with mpt_load_file_texts(1) [OF ok, of demo_module "Some ''song.mod''" "Some [1, 2, 3]" 3]
  have "mpt_texts demo_loaded_mpt = (''Title'', [], ''Demo'')"
    unfolding demo_loaded_mpt_def
    by (auto simp: demo_module_def c_str_def NUL_def)
  then show ?thesis
    by (simp add: demo_played_mpt_def mpt_texts_def mpt_compute_audio_samples_def Let_def
        split: option.splits prod.splits)
qed

text \<open>
  Claim C9, as stated, fails: nothing clears the text fields on teardown or on a failed
  load. A tick session that has loaded a track still reads its title, author and type
  after \<^verbatim>\<open>emu_teardown\<close>, and after a load that the factory refused; a frame-pull session
  still reads them after \<^verbatim>\<open>mpt_teardown\<close>, and after a load that the library refused.
\<close>

theorem metadata_not_cleared_counterexample:
  "emu_texts (demo_loaded 100 70 44100) = (''Title'', ''Author'', ''Demo'', [])
   \<and> emu_texts (emu_teardown (demo_loaded 100 70 44100)) = (''Title'', ''Author'', ''Demo'', [])
   \<and> fst (emu_load_file (demo_player 100 70) (Some ''bad.d00'') (Some [0]) 1
            (demo_loaded 100 70 44100)) = - 1
   \<and> emu_texts demo_refused = (''Title'', ''Author'', ''Demo'', [])
   \<and> mpt_texts demo_played_mpt = (''Title'', [], ''Demo'')
   \<and> mpt_texts (mpt_teardown demo_played_mpt) = (''Title'', [], ''Demo'')
   \<and> fst (mpt_load_file demo_module (Some ''bad.mod'') (Some [0]) 1 demo_played_mpt) = - 1
   \<and> mpt_texts demo_refused_mpt = (''Title'', [], ''Demo'')"
proof -
  have ok: "texts_ok (demo_loaded 100 70 44100)"
    using reachable_session_ok [OF demo_loaded_reachable] by (simp add: session_ok_def)
  have "mpt_texts demo_refused_mpt = mpt_texts demo_played_mpt"
    by (simp add: demo_refused_mpt_def mpt_load_file_def demo_module_def Let_def mpt_texts_def)
  then have refused: "mpt_texts demo_refused_mpt = (''Title'', [], ''Demo'')"
    by (simp add: demo_played_mpt_texts)
  have "emu_texts demo_refused = emu_texts (demo_loaded 100 70 44100)"
    unfolding demo_refused_def
    using emu_load_file_texts(2) [OF ok, of "demo_player 100 70" "Some ''bad.d00''" "Some [0]" 1]
      demo_refused_fails
    by simp
  then show ?thesis
    using refused
    by (simp add: demo_loaded_texts emu_teardown_texts demo_refused_fails demo_played_mpt_texts
        mpt_teardown_texts demo_refused_mpt_fields)
qed

text \<open>
  Claim C9, amended. On both surfaces a successful load sets the text fields to the
  strings of the backend, each cut to the capacity of its array less one (255 characters;
  1023 for the description of the tick surface; empty for a field the frame-pull library
  does not have), and the arrays keep their declared length. A failed load and a teardown
  leave the text fields as they are, and so does \<^verbatim>\<open>emu_init\<close>; \<^verbatim>\<open>mpt_init\<close> empties them
  when it succeeds.
\<close>

theorem metadata_lifecycle:
  "(s \<in> reachable lib \<longrightarrow>
      (fst (emu_load_file lib filename bytes sz s) = 0 \<longrightarrow>
         (\<exists>p. g_player (snd (emu_load_file lib filename bytes sz s)) = Some p
            \<and> emu_texts (snd (emu_load_file lib filename bytes sz s))
                = (take 255 (c_str (gettitle lib p)), take 255 (c_str (getauthor lib p)),
                   take 255 (c_str (gettype lib p)), take 1023 (c_str (getdesc lib p)))))
      \<and> (fst (emu_load_file lib filename bytes sz s) \<noteq> 0 \<longrightarrow>
           emu_texts (snd (emu_load_file lib filename bytes sz s)) = emu_texts s)
      \<and> texts_ok (snd (emu_load_file lib filename bytes sz s))
      \<and> emu_texts (emu_teardown s) = emu_texts s
      \<and> emu_texts (snd (emu_init sampleRate s)) = emu_texts s)
   \<and> (t \<in> reachable_mpt mlib \<longrightarrow>
      (fst (mpt_load_file mlib filename bytes sz t) = 0 \<longrightarrow>
         (\<exists>m. g_module (snd (mpt_load_file mlib filename bytes sz t)) = Some m
            \<and> mpt_texts (snd (mpt_load_file mlib filename bytes sz t))
                = (case module_get_metadata mlib m ''title'' of
                     Some x \<Rightarrow> take 255 (c_str x) | None \<Rightarrow> [],
                   case module_get_metadata mlib m ''artist'' of
                     Some x \<Rightarrow> take 255 (c_str x) | None \<Rightarrow> [],
                   case module_get_metadata mlib m ''type_long'' of
                     Some x \<Rightarrow> take 255 (c_str x) | None \<Rightarrow> [])))
      \<and> (fst (mpt_load_file mlib filename bytes sz t) \<noteq> 0 \<longrightarrow>
           mpt_texts (snd (mpt_load_file mlib filename bytes sz t)) = mpt_texts t)
      \<and> texts_ok_mpt (snd (mpt_load_file mlib filename bytes sz t))
      \<and> mpt_texts (mpt_teardown t) = mpt_texts t
      \<and> mpt_texts (snd (mpt_init True sampleRate t)) = ([], [], []))"
proof (intro conjI impI)
  assume r: "s \<in> reachable lib"
  then have ok: "texts_ok s"
    using reachable_session_ok by (auto simp: session_ok_def)
  from r have "snd (emu_load_file lib filename bytes sz s) \<in> reachable lib"
    by (rule reachable.load_file)
  then show "texts_ok (snd (emu_load_file lib filename bytes sz s))"
    using reachable_session_ok by (auto simp: session_ok_def)
  show "emu_texts (emu_teardown s) = emu_texts s"
    by (rule emu_teardown_texts)
  show "emu_texts (snd (emu_init sampleRate s)) = emu_texts s"
    by (rule emu_init_texts)
  {
    assume "fst (emu_load_file lib filename bytes sz s) = 0"
    with emu_load_file_texts(1) [OF ok, of lib filename bytes sz]
    show "\<exists>p. g_player (snd (emu_load_file lib filename bytes sz s)) = Some p
            \<and> emu_texts (snd (emu_load_file lib filename bytes sz s))
                = (take 255 (c_str (gettitle lib p)), take 255 (c_str (getauthor lib p)),
                   take 255 (c_str (gettype lib p)), take 1023 (c_str (getdesc lib p)))"
      by simp
  }
  {
    assume "fst (emu_load_file lib filename bytes sz s) \<noteq> 0"
    with emu_load_file_texts(2) [OF ok, of lib filename bytes sz]
    show "emu_texts (snd (emu_load_file lib filename bytes sz s)) = emu_texts s"
      by simp
  }
next
  assume r: "t \<in> reachable_mpt mlib"
  then have ok: "texts_ok_mpt t" by (rule reachable_mpt_texts_ok)
  from r have "snd (mpt_load_file mlib filename bytes sz t) \<in> reachable_mpt mlib"
    by (rule reachable_mpt.load_file_mpt)
  then show "texts_ok_mpt (snd (mpt_load_file mlib filename bytes sz t))"
    by (rule reachable_mpt_texts_ok)
  show "mpt_texts (mpt_teardown t) = mpt_texts t"
    by (rule mpt_teardown_texts)
  show "mpt_texts (snd (mpt_init True sampleRate t)) = ([], [], [])"
    using ok by (rule mpt_init_texts)
  {
    assume "fst (mpt_load_file mlib filename bytes sz t) = 0"
    with mpt_load_file_texts(1) [OF ok, of mlib filename bytes sz]
    show "\<exists>m. g_module (snd (mpt_load_file mlib filename bytes sz t)) = Some m
            \<and> mpt_texts (snd (mpt_load_file mlib filename bytes sz t))
                = (case module_get_metadata mlib m ''title'' of
                     Some x \<Rightarrow> take 255 (c_str x) | None \<Rightarrow> [],
                   case module_get_metadata mlib m ''artist'' of
                     Some x \<Rightarrow> take 255 (c_str x) | None \<Rightarrow> [],
                   case module_get_metadata mlib m ''type_long'' of
                     Some x \<Rightarrow> take 255 (c_str x) | None \<Rightarrow> [])"
      by simp
  }
  {
    assume "fst (mpt_load_file mlib filename bytes sz t) \<noteq> 0"
    with mpt_load_file_texts(2) [OF ok, of mlib filename bytes sz]
    show "mpt_texts (snd (mpt_load_file mlib filename bytes sz t)) = mpt_texts t"
      by simp
  }
qed

text \<open>The title of 300 characters is stored as its first 255; the frame-pull session
  reads its title and type, and an empty artist.\<close>

theorem metadata_lifecycle_witness:
  "snd (emu_init 44100 initial_state) \<in> reachable demo_long_title
   \<and> fst (emu_load_file demo_long_title (Some ''song.d00'') (Some [1, 2, 3]) 3
            (snd (emu_init 44100 initial_state))) = 0
   \<and> length (gettitle demo_long_title 0) = 300
   \<and> fst (emu_texts (snd (emu_load_file demo_long_title (Some ''song.d00'') (Some [1, 2, 3]) 3
            (snd (emu_init 44100 initial_state)))))
      = replicate 255 CHR ''x''
   \<and> snd (mpt_init True 48000 initial_state_mpt) \<in> reachable_mpt demo_module
   \<and> fst (mpt_load_file demo_module (Some ''song.mod'') (Some [1, 2, 3]) 3
            (snd (mpt_init True 48000 initial_state_mpt))) = 0
   \<and> mpt_texts demo_loaded_mpt = (''Title'', [], ''Demo'')"
proof -
  let ?s = "snd (emu_init 44100 initial_state) :: nat emu_state"
  let ?t = "snd (mpt_init True 48000 initial_state_mpt) :: real mpt_state"
  have r: "?s \<in> reachable demo_long_title"
    by (intro reachable.init reachable.start)
  have rm: "?t \<in> reachable_mpt demo_module"
    by (intro reachable_mpt.init_mpt reachable_mpt.start_mpt)
  have ok: "fst (emu_load_file demo_long_title (Some ''song.d00'') (Some [1, 2, 3]) 3 ?s) = 0"
    by (simp add: demo_long_title_def demo_eval)
  have okm: "fst (mpt_load_file demo_module (Some ''song.mod'') (Some [1, 2, 3]) 3 ?t) = 0"
    by (simp add: mpt_load_file_def demo_module_def Let_def)
  note th = metadata_lifecycle [where s = ?s and lib = demo_long_title
      and filename = "Some ''song.d00''" and bytes = "Some [1, 2, 3]" and sz = 3
      and t = ?t and mlib = demo_module]
  have title: "take 255 (c_str (gettitle demo_long_title p)) = replicate 255 CHR ''x''" for p
    by (simp add: demo_long_title_def c_str_def NUL_def)
  from th r ok obtain p where
    "emu_texts (snd (emu_load_file demo_long_title (Some ''song.d00'') (Some [1, 2, 3]) 3 ?s))
       = (take 255 (c_str (gettitle demo_long_title p)),
          take 255 (c_str (getauthor demo_long_title p)),
          take 255 (c_str (gettype demo_long_title p)),
          take 1023 (c_str (getdesc demo_long_title p)))"
    by blast
  then have a: "fst (emu_texts (snd (emu_load_file demo_long_title (Some ''song.d00'')
      (Some [1, 2, 3]) 3 ?s))) = replicate 255 CHR ''x''"
    by (simp add: title)
  have b: "length (gettitle demo_long_title 0) = 300"
    by (simp add: demo_long_title_def)
  have c: "mpt_texts demo_loaded_mpt = (''Title'', [], ''Demo'')"
  proof -
    from th rm okm obtain m where
      "mpt_texts (snd (mpt_load_file demo_module (Some ''song.d00'') (Some [1, 2, 3]) 3 ?t))
         = (case module_get_metadata demo_module m ''title'' of
              Some x \<Rightarrow> take 255 (c_str x) | None \<Rightarrow> [],
            case module_get_metadata demo_module m ''artist'' of
              Some x \<Rightarrow> take 255 (c_str x) | None \<Rightarrow> [],
            case module_get_metadata demo_module m ''type_long'' of
              Some x \<Rightarrow> take 255 (c_str x) | None \<Rightarrow> [])"
      by (auto simp: mpt_load_file_def Let_def)
    moreover have "snd (mpt_load_file demo_module (Some ''song.d00'') (Some [1, 2, 3]) 3 ?t)
        = demo_loaded_mpt"
      by (simp add: demo_loaded_mpt_def mpt_load_file_def)
    ultimately show ?thesis
      by (simp add: demo_module_def c_str_def NUL_def)
  qed
  from r ok b a rm okm c show ?thesis by simp
qed

end
